theory Spec2Isabelle
  imports Complex_Main
begin

section \<open>N2Window.js: floating windows with stacking, dragging and resizing\<close>

text \<open>
  A shallow embedding of \<^verbatim>\<open>openmdao/visualization/n2_viewer/src/N2Window.js\<close>.
  JavaScript numbers are modelled as \<^typ>\<open>real\<close>: there is no NaN and no infinity,
  and arithmetic is exact, except where the rounding of double precision is written out
  for the arithmetic of a resize. Methods that mutate \<^verbatim>\<open>this\<close> and return it become
  functions returning the updated window; the static \<^verbatim>\<open>N2Window.zIndex\<close> is threaded
  explicitly. What the browser measures (bounding rectangles, scroll sizes, the pointer
  position) is an argument of the function that reads it. The static
  \<^verbatim>\<open>N2Window.container\<close> only names the element whose rectangle is measured and
  has no state of its own here.
\<close>

subsection \<open>JavaScript strings\<close>

text \<open>
  A string is a list of symbols: a character, or the decimal rendering of a number put
  there by a template literal or by a number-to-string conversion. Keeping the number
  as one symbol makes \<^verbatim>\<open>`${x}px`\<close> and \<^verbatim>\<open>String(n)\<close> definable for every
  number; a rendered number contains no whitespace and never the text of a class name.
\<close>

datatype sym = Ch char | Num real

type_synonym jsstr = "sym list"

definition str :: "string \<Rightarrow> jsstr" where
  "str s = map Ch s"

text \<open>The template literal \<^verbatim>\<open>`${x}px`\<close>.\<close>

definition px :: "real \<Rightarrow> jsstr" where
  "px v = Num v # str ''px''"

text \<open>The template literal \<^verbatim>\<open>`translate(${a}px, ${b}px)`\<close>.\<close>

definition translate :: "real \<Rightarrow> real \<Rightarrow> jsstr" where
  "translate a b = str ''translate('' @ px a @ str '', '' @ px b @ str '')''"

text \<open>
  Truthiness of an optional string argument: \<^verbatim>\<open>null\<close> (the default of an omitted
  argument, \<^term>\<open>None\<close>) and the empty string are falsy.
\<close>

fun truthy :: "jsstr option \<Rightarrow> bool" where
  "truthy None = False"
| "truthy (Some s) = (s \<noteq> [])"

text \<open>The ASCII part of the regular expression class \<^verbatim>\<open>\s\<close>, and its line terminators.\<close>

fun is_space :: "sym \<Rightarrow> bool" where
  "is_space (Ch c) = (c \<in> {CHR '' '', CHR 0x09, CHR 0x0A, CHR 0x0B, CHR 0x0C, CHR 0x0D})"
| "is_space (Num v) = False"

fun is_line_terminator :: "sym \<Rightarrow> bool" where
  "is_line_terminator (Ch c) = (c = CHR 0x0A \<or> c = CHR 0x0D)"
| "is_line_terminator (Num v) = False"

text \<open>
  The conversion of a string to a number that \<^verbatim>\<open><\<close> applies to a string operand:
  blanks at both ends are dropped; the empty string is 0; then come the literals with a
  prefix \<^verbatim>\<open>0x\<close>, \<^verbatim>\<open>0o\<close> or \<^verbatim>\<open>0b\<close>, \<^verbatim>\<open>Infinity\<close> with an optional
  sign, and the decimal literals with an optional sign, fraction and exponent.
  Everything else is NaN. A number rendered into the string, \<^term>\<open>Num v\<close>, converts
  back to \<open>v\<close> when it stands alone; next to further characters it is not decoded.
  The value is exact, where JavaScript rounds it to a double.
\<close>

datatype jsnum = NaN | Finite real | PlusInfinity | MinusInfinity

definition trim :: "jsstr \<Rightarrow> jsstr" where
  "trim s = rev (dropWhile is_space (rev (dropWhile is_space s)))"

fun digit :: "nat \<Rightarrow> sym \<Rightarrow> nat option" where
  "digit b (Ch c) =
     (case map_of (zip ''0123456789abcdefABCDEF''
                       [0, 1, 2, 3, 4, 5, 6, 7, 8, 9, 10, 11, 12, 13, 14, 15,
                        10, 11, 12, 13, 14, 15]) c of
        None \<Rightarrow> None
      | Some v \<Rightarrow> if v < b then Some v else None)"
| "digit b (Num v) = None"

fun digits_acc :: "nat \<Rightarrow> nat \<Rightarrow> jsstr \<Rightarrow> nat option" where
  "digits_acc b a [] = Some a"
| "digits_acc b a (c # cs) =
     (case digit b c of None \<Rightarrow> None | Some v \<Rightarrow> digits_acc b (b * a + v) cs)"

definition digits :: "nat \<Rightarrow> jsstr \<Rightarrow> nat option" where
  "digits b s = (if s = [] then None else digits_acc b 0 s)"

definition is_digit :: "sym \<Rightarrow> bool" where
  "is_digit c = (digit 10 c \<noteq> None)"

definition decimal_value :: "jsstr \<Rightarrow> nat" where
  "decimal_value s =
     foldl (\<lambda>a c. 10 * a + (case digit 10 c of None \<Rightarrow> 0 | Some v \<Rightarrow> v)) 0 s"

fun signed :: "jsstr \<Rightarrow> int \<times> jsstr" where
  "signed (Ch c # cs) =
     (if c = CHR ''-'' then (- 1, cs) else if c = CHR ''+'' then (1, cs) else (1, Ch c # cs))"
| "signed s = (1, s)"

definition exponent :: "jsstr \<Rightarrow> int option" where
  "exponent s =
     (case s of
        [] \<Rightarrow> Some 0
      | c # cs \<Rightarrow>
          if c = Ch CHR ''e'' \<or> c = Ch CHR ''E''
          then (case digits 10 (snd (signed cs)) of
                  None \<Rightarrow> None
                | Some n \<Rightarrow> Some (fst (signed cs) * int n))
          else None)"

definition unsigned_decimal :: "jsstr \<Rightarrow> real option" where
  "unsigned_decimal s =
     (let ip = takeWhile is_digit s;
          r = dropWhile is_digit s;
          dot = (r \<noteq> [] \<and> hd r = Ch CHR ''.'');
          fp = (if dot then takeWhile is_digit (tl r) else []);
          r = (if dot then dropWhile is_digit (tl r) else r)
      in if ip = [] \<and> fp = [] then None
         else (case exponent r of
                 None \<Rightarrow> None
               | Some e \<Rightarrow>
                   Some ((real (decimal_value ip) + real (decimal_value fp) / 10 ^ length fp)
                         * (if 0 \<le> e then 10 ^ nat e else 1 / 10 ^ nat (- e)))))"

definition string_to_number :: "jsstr \<Rightarrow> jsnum" where
  "string_to_number s =
     (let t = trim s
      in if t = [] then Finite 0
         else (case t of
                 [Num v] \<Rightarrow> Finite v
               | _ \<Rightarrow>
                 if take 2 t \<in> {str ''0x'', str ''0X''}
                 then (case digits 16 (drop 2 t) of None \<Rightarrow> NaN | Some n \<Rightarrow> Finite (real n))
                 else if take 2 t \<in> {str ''0o'', str ''0O''}
                 then (case digits 8 (drop 2 t) of None \<Rightarrow> NaN | Some n \<Rightarrow> Finite (real n))
                 else if take 2 t \<in> {str ''0b'', str ''0B''}
                 then (case digits 2 (drop 2 t) of None \<Rightarrow> NaN | Some n \<Rightarrow> Finite (real n))
                 else if snd (signed t) = str ''Infinity''
                 then (if fst (signed t) < 0 then MinusInfinity else PlusInfinity)
                 else (case unsigned_decimal (snd (signed t)) of
                         None \<Rightarrow> NaN
                       | Some v \<Rightarrow> Finite (real_of_int (fst (signed t)) * v))))"

text \<open>The finite number that a string converts to, if it does.\<close>

definition to_number :: "jsstr \<Rightarrow> real option" where
  "to_number s = (case string_to_number s of Finite v \<Rightarrow> Some v | _ \<Rightarrow> None)"

text \<open>
  \<^verbatim>\<open>style < n\<close> for what \<^verbatim>\<open>selection.style(name)\<close> returned and a finite
  \<open>n\<close>. Without an inline value d3 returns the computed style, which the page's style
  sheets decide: it is taken to be \<^verbatim>\<open>auto\<close>, and a comparison with NaN is false.
\<close>

definition js_less :: "jsstr option \<Rightarrow> real \<Rightarrow> bool" where
  "js_less style n =
     (case style of
        None \<Rightarrow> False
      | Some s \<Rightarrow>
          (case string_to_number s of
             NaN \<Rightarrow> False
           | Finite v \<Rightarrow> v < n
           | PlusInfinity \<Rightarrow> False
           | MinusInfinity \<Rightarrow> True))"

text \<open>
  The name under which \<^verbatim>\<open>style.setProperty\<close> files a property: in lower case,
  unless it is a custom property.
\<close>

definition css_name :: "string \<Rightarrow> string" where
  "css_name s =
     (if take 2 s = ''--'' then s
      else map (\<lambda>c. case map_of (zip ''ABCDEFGHIJKLMNOPQRSTUVWXYZ''
                                     ''abcdefghijklmnopqrstuvwxyz'') c of
                      None \<Rightarrow> c | Some l \<Rightarrow> l) s)"

subsection \<open>Class lists\<close>

text \<open>
  \<^verbatim>\<open>selection.classed(names, value)\<close> splits \<^verbatim>\<open>names\<close> at whitespace and adds each
  name to, or removes it from, the element's \<^verbatim>\<open>classList\<close>; the class attribute is
  then the remaining tokens, each once, joined by single spaces.
\<close>

fun tokens_acc :: "jsstr \<Rightarrow> jsstr \<Rightarrow> jsstr list" where
  "tokens_acc cur [] = (if cur = [] then [] else [cur])"
| "tokens_acc cur (c # cs) =
     (if is_space c then (if cur = [] then tokens_acc [] cs else cur # tokens_acc [] cs)
      else tokens_acc (cur @ [c]) cs)"

definition tokens :: "jsstr \<Rightarrow> jsstr list" where
  "tokens s = tokens_acc [] s"

fun join_tokens :: "jsstr list \<Rightarrow> jsstr" where
  "join_tokens [] = []"
| "join_tokens [t] = t"
| "join_tokens (t # u # ts) = t @ Ch CHR '' '' # join_tokens (u # ts)"

fun classList_add :: "jsstr list \<Rightarrow> jsstr \<Rightarrow> jsstr list" where
  "classList_add ts n = (if n \<in> set ts then ts else ts @ [n])"

fun classList_remove :: "jsstr list \<Rightarrow> jsstr \<Rightarrow> jsstr list" where
  "classList_remove ts n = filter (\<lambda>t. t \<noteq> n) ts"

definition classed :: "jsstr \<Rightarrow> bool \<Rightarrow> jsstr \<Rightarrow> jsstr" where
  "classed names val attr =
     join_tokens (foldl (if val then classList_add else classList_remove)
                        (remdups (tokens attr)) (tokens names))"

subsection \<open>The theme pattern\<close>

text \<open>
  \<^verbatim>\<open>classes.replace(/^.*(window-theme-\S+).*$/, "$1")\<close>. The pattern is anchored at
  both ends and \<^verbatim>\<open>.\<close> stops at a line terminator, so a string holding one does not
  match. The leading \<^verbatim>\<open>.*\<close> is greedy, so the group is taken at the last place where
  \<^verbatim>\<open>window-theme-\<close> is followed by a non-blank symbol, and \<^verbatim>\<open>\S+\<close> runs to the
  next blank. The group begins with \<^verbatim>\<open>window-theme-\<close> itself. A string that does not
  match is returned as it is.
\<close>

fun strip_prefix :: "jsstr \<Rightarrow> jsstr \<Rightarrow> jsstr option" where
  "strip_prefix [] s = Some s"
| "strip_prefix (p # ps) [] = None"
| "strip_prefix (p # ps) (c # cs) = (if p = c then strip_prefix ps cs else None)"

definition theme_group_at :: "jsstr \<Rightarrow> jsstr option" where
  "theme_group_at s =
     (case strip_prefix (str ''window-theme-'') s of
        None \<Rightarrow> None
      | Some [] \<Rightarrow> None
      | Some (c # cs) \<Rightarrow>
          (if is_space c then None
           else Some (str ''window-theme-'' @ takeWhile (\<lambda>a. \<not> is_space a) (c # cs))))"

fun theme_group_last :: "jsstr \<Rightarrow> jsstr option" where
  "theme_group_last [] = None"
| "theme_group_last (c # cs) =
     (case theme_group_last cs of
        Some g \<Rightarrow> Some g
      | None \<Rightarrow> theme_group_at (c # cs))"

definition replace_theme :: "jsstr \<Rightarrow> jsstr" where
  "replace_theme classes =
     (if list_ex is_line_terminator classes then classes
      else (case theme_group_last classes of None \<Rightarrow> classes | Some g \<Rightarrow> g))"

subsection \<open>Bounding rectangles and anchored geometry\<close>

text \<open>
  A \<^verbatim>\<open>DOMRect\<close> stores an origin and a size; its four sides are derived from them as
  the DOM geometry interfaces define.
\<close>

record rect =
  rect_x :: real
  rect_y :: real
  rect_width :: real
  rect_height :: real

definition rect_top :: "rect \<Rightarrow> real" where
  "rect_top r = min (rect_y r) (rect_y r + rect_height r)"

definition rect_right :: "rect \<Rightarrow> real" where
  "rect_right r = max (rect_x r) (rect_x r + rect_width r)"

definition rect_bottom :: "rect \<Rightarrow> real" where
  "rect_bottom r = max (rect_y r) (rect_y r + rect_height r)"

definition rect_left :: "rect \<Rightarrow> real" where
  "rect_left r = min (rect_x r) (rect_x r + rect_width r)"

text \<open>A bounding rectangle measured by the browser has a size that is not negative.\<close>

definition measured :: "rect \<Rightarrow> bool" where
  "measured r = (0 \<le> rect_width r \<and> 0 \<le> rect_height r)"

text \<open>
  The object \<^verbatim>\<open>posInfo\<close> of \<^verbatim>\<open>_getPos\<close>; its key \<^verbatim>\<open>top\<close> is the field
  \<open>top'\<close> here.
\<close>

record posInfo =
  top' :: real
  right :: real
  bottom :: real
  left :: real
  width :: real
  height :: real
  parentWidth :: real
  parentHeight :: real

text \<open>
  \<^verbatim>\<open>_getPos\<close>, given the bounding rectangles of the container and of the window.
\<close>

definition getPos :: "rect \<Rightarrow> rect \<Rightarrow> posInfo" where
  "getPos parentPos childPos =
     \<lparr> top' = rect_top childPos - rect_top parentPos,
       right = rect_right parentPos - rect_right childPos,
       bottom = rect_bottom parentPos - rect_bottom childPos,
       left = rect_left childPos - rect_left parentPos,
       width = rect_width childPos,
       height = rect_height childPos,
       parentWidth = rect_width parentPos,
       parentHeight = rect_height parentPos \<rparr>"

subsection \<open>The window object\<close>

text \<open>
  The three classes. A window object records which one it was constructed as, since
  \<^verbatim>\<open>close\<close> is dispatched on it.
\<close>

datatype wclass = N2Window | N2WindowDraggable | N2WindowResizable

text \<open>
  The eight resizer elements, in the order of the keys of \<^verbatim>\<open>resizerClassNames\<close>,
  the sides a window has and its two dimensions.
\<close>

datatype resizer =
  Rsz_top | Rsz_top_right | Rsz_right | Rsz_bottom_right
  | Rsz_bottom | Rsz_bottom_left | Rsz_left | Rsz_top_left

datatype side = Side_top | Side_right | Side_bottom | Side_left

datatype dimension = Dim_width | Dim_height

definition all_resizers :: "resizer list" where
  "all_resizers = [Rsz_top, Rsz_top_right, Rsz_right, Rsz_bottom_right,
                   Rsz_bottom, Rsz_bottom_left, Rsz_left, Rsz_top_left]"

fun resizer_name :: "resizer \<Rightarrow> string" where
  "resizer_name Rsz_top = ''top''"
| "resizer_name Rsz_top_right = ''top-right''"
| "resizer_name Rsz_right = ''right''"
| "resizer_name Rsz_bottom_right = ''bottom-right''"
| "resizer_name Rsz_bottom = ''bottom''"
| "resizer_name Rsz_bottom_left = ''bottom-left''"
| "resizer_name Rsz_left = ''left''"
| "resizer_name Rsz_top_left = ''top-left''"

fun resizerClassNames :: "resizer \<Rightarrow> string" where
  "resizerClassNames Rsz_top = ''horizontal''"
| "resizerClassNames Rsz_top_right = ''corner''"
| "resizerClassNames Rsz_right = ''vertical''"
| "resizerClassNames Rsz_bottom_right = ''corner''"
| "resizerClassNames Rsz_bottom = ''horizontal''"
| "resizerClassNames Rsz_bottom_left = ''corner''"
| "resizerClassNames Rsz_left = ''vertical''"
| "resizerClassNames Rsz_top_left = ''corner''"

fun side_name :: "side \<Rightarrow> string" where
  "side_name Side_top = ''top''"
| "side_name Side_right = ''right''"
| "side_name Side_bottom = ''bottom''"
| "side_name Side_left = ''left''"

text \<open>\<^verbatim>\<open>name.split('-')\<close>: the sides that the name of a resizer lists, in its order.\<close>

fun dirs :: "resizer \<Rightarrow> side list" where
  "dirs Rsz_top = [Side_top]"
| "dirs Rsz_top_right = [Side_top, Side_right]"
| "dirs Rsz_right = [Side_right]"
| "dirs Rsz_bottom_right = [Side_bottom, Side_right]"
| "dirs Rsz_bottom = [Side_bottom]"
| "dirs Rsz_bottom_left = [Side_bottom, Side_left]"
| "dirs Rsz_left = [Side_left]"
| "dirs Rsz_top_left = [Side_top, Side_left]"

text \<open>The splitting of a string at a separator, to relate \<^const>\<open>dirs\<close> to the names.\<close>

fun split_acc :: "char \<Rightarrow> string \<Rightarrow> string \<Rightarrow> string list" where
  "split_acc sep cur [] = [cur]"
| "split_acc sep cur (c # cs) =
     (if c = sep then cur # split_acc sep [] cs else split_acc sep (cur @ [c]) cs)"

definition split :: "char \<Rightarrow> string \<Rightarrow> string list" where
  "split sep s = split_acc sep [] s"

text \<open>The table \<^verbatim>\<open>dirVals\<close>.\<close>

record dirval =
  mult :: real
  idx :: nat
  dmin :: dimension

fun dirVals :: "side \<Rightarrow> dirval" where
  "dirVals Side_top = \<lparr> mult = 1, idx = 1, dmin = Dim_height \<rparr>"
| "dirVals Side_right = \<lparr> mult = -1, idx = 0, dmin = Dim_width \<rparr>"
| "dirVals Side_bottom = \<lparr> mult = -1, idx = 1, dmin = Dim_height \<rparr>"
| "dirVals Side_left = \<lparr> mult = 1, idx = 0, dmin = Dim_width \<rparr>"

text \<open>The object \<^verbatim>\<open>this.min\<close> of a resizable window.\<close>

record minsize =
  min_width :: real
  min_height :: real

text \<open>
  The element cloned from the template and what the methods change in it: the inline
  styles of the root element, of the header and of the footer, the classes that are
  switched, the title and the class attribute of \<^verbatim>\<open>div.window-contents\<close>.
\<close>

record dom =
  el_id :: jsstr
  styles :: "string \<Rightarrow> jsstr option"
  window_inactive :: bool
  title_html :: jsstr
  contents_class :: jsstr
  header_styles :: "string \<Rightarrow> jsstr option"
  header_draggable :: bool
  footer_styles :: "string \<Rightarrow> jsstr option"
  footer_inactive :: bool
  closeButton_inactive :: bool
  resizer_classes :: "jsstr list"

text \<open>
  The window object: its element, the fields \<^verbatim>\<open>min\<close> and \<^verbatim>\<open>active\<close>
  (\<^term>\<open>None\<close> is \<^verbatim>\<open>undefined\<close>), the listeners it has registered on its own
  elements, and whether its root element is in the document.
\<close>

record n2window = dom +
  wclass :: wclass
  min_size :: "minsize option"
  active :: "bool option"
  closeButton_click :: bool
  header_mousedown :: bool
  resizer_mousedown :: "resizer list"
  in_document :: bool

text \<open>What a method returns: \<^verbatim>\<open>this\<close>, a string, or nothing.\<close>

datatype ret = This | Val jsstr | Undefined

subsection \<open>Methods of \<^verbatim>\<open>N2Window\<close>\<close>

text \<open>\<^verbatim>\<open>bringToFront\<close>, on the static \<^verbatim>\<open>N2Window.zIndex\<close> and the window.\<close>

definition bringToFront :: "bool \<Rightarrow> real \<Rightarrow> n2window \<Rightarrow> real \<times> n2window" where
  "bringToFront force zIndex w =
     (if force \<or> js_less (styles w ''z-index'') zIndex
      then (zIndex + 1, w\<lparr> styles := (styles w)(''z-index'' \<mapsto> [Num (zIndex + 1)]) \<rparr>)
      else (zIndex, w))"

text \<open>The getter and the setter of \<^verbatim>\<open>hidden\<close>.\<close>

definition hidden :: "n2window \<Rightarrow> bool" where
  "hidden w = window_inactive w"

definition hidden_set :: "bool \<Rightarrow> real \<Rightarrow> n2window \<Rightarrow> real \<times> n2window" where
  "hidden_set hide_it zIndex w =
     (let (z, w1) = (if \<not> hide_it then bringToFront False zIndex w else (zIndex, w))
      in (z, w1\<lparr> window_inactive := hide_it \<rparr>))"

definition show_window :: "real \<Rightarrow> n2window \<Rightarrow> real \<times> n2window" where
  "show_window zIndex w = hidden_set False zIndex w"

definition hide :: "real \<Rightarrow> n2window \<Rightarrow> real \<times> n2window" where
  "hide zIndex w = hidden_set True zIndex w"

definition title :: "jsstr option \<Rightarrow> n2window \<Rightarrow> n2window \<times> ret" where
  "title newTitle w =
     (if truthy newTitle then (w\<lparr> title_html := the newTitle \<rparr>, This)
      else (w, Val (title_html w)))"

definition theme :: "jsstr option \<Rightarrow> n2window \<Rightarrow> n2window \<times> ret" where
  "theme newTheme w =
     (let classes = contents_class w;
          curTheme = replace_theme classes
      in if truthy newTheme
         then (w\<lparr> contents_class :=
                    classed (str ''window-theme-'' @ the newTheme) True
                      (classed (str ''window-theme-'' @ curTheme) False classes) \<rparr>, This)
         else (w, Val curTheme))"

text \<open>
  \<^verbatim>\<open>set\<close> and \<^verbatim>\<open>setList\<close>; the options of \<^verbatim>\<open>setList\<close> in their order.
  \<open>style_set\<close> is \<^verbatim>\<open>this.window.style(opt, val)\<close> for a string: the property is
  filed under its lower-case name, and the empty string removes it. Whether the browser
  knows the property and accepts the value is not modelled: the style keeps what it was
  handed.
\<close>

definition style_set :: "string \<Rightarrow> jsstr \<Rightarrow> n2window \<Rightarrow> n2window" where
  "style_set name val w =
     (if val = [] then w\<lparr> styles := (styles w)(css_name name := None) \<rparr>
      else w\<lparr> styles := (styles w)(css_name name \<mapsto> val) \<rparr>)"

definition set_opt :: "string \<Rightarrow> jsstr \<Rightarrow> n2window \<Rightarrow> n2window" where
  "set_opt opt val w =
     (if opt = ''title'' then fst (title (Some val) w)
      else if opt = ''theme'' then fst (theme (Some val) w)
      else style_set opt val w)"

fun setList :: "(string \<times> jsstr) list \<Rightarrow> n2window \<Rightarrow> n2window" where
  "setList [] w = w"
| "setList ((optName, val) # options) w = setList options (set_opt optName val w)"

text \<open>
  \<^verbatim>\<open>_setPos\<close>: its loop over the six names is a \<^const>\<open>fold\<close>, and
  \<^verbatim>\<open>newPos[s]\<close> for these six names is \<open>pos_field newPos s\<close>.
\<close>

fun pos_field :: "posInfo \<Rightarrow> string \<Rightarrow> real" where
  "pos_field newPos s =
     (if s = ''top'' then top' newPos
      else if s = ''right'' then right newPos
      else if s = ''bottom'' then bottom newPos
      else if s = ''left'' then left newPos
      else if s = ''width'' then width newPos
      else height newPos)"

definition setPos :: "posInfo \<Rightarrow> n2window \<Rightarrow> n2window" where
  "setPos newPos w =
     fold (\<lambda>s. set_opt s (px (pos_field newPos s)))
          [''top'', ''right'', ''bottom'', ''left'', ''width'', ''height''] w"

text \<open>\<^verbatim>\<open>close\<close> of the base class and of the draggable class, and its dispatch.\<close>

definition close_N2Window :: "n2window \<Rightarrow> n2window" where
  "close_N2Window w = w\<lparr> closeButton_click := False, in_document := False \<rparr>"

definition close_N2WindowDraggable :: "n2window \<Rightarrow> n2window" where
  "close_N2WindowDraggable w = close_N2Window (w\<lparr> header_mousedown := False \<rparr>)"

definition close :: "n2window \<Rightarrow> n2window" where
  "close w =
     (case wclass w of
        N2Window \<Rightarrow> close_N2Window w
      | N2WindowDraggable \<Rightarrow> close_N2WindowDraggable w
      | N2WindowResizable \<Rightarrow> close_N2WindowDraggable w)"

definition hideCloseButton :: "n2window \<Rightarrow> n2window" where
  "hideCloseButton w = w\<lparr> closeButton_inactive := True \<rparr>"

definition showCloseButton :: "n2window \<Rightarrow> n2window" where
  "showCloseButton w = w\<lparr> closeButton_inactive := False \<rparr>"

definition showFooter :: "n2window \<Rightarrow> n2window" where
  "showFooter w = w\<lparr> footer_inactive := False \<rparr>"

definition ribbonColor :: "jsstr \<Rightarrow> n2window \<Rightarrow> n2window" where
  "ribbonColor color w =
     w\<lparr> header_styles := (header_styles w)(''background-color'' \<mapsto> color),
        footer_styles := (footer_styles w)(''background-color'' \<mapsto> color) \<rparr>"

text \<open>
  \<^verbatim>\<open>move\<close>. The event, the size of the viewport and the two bounding rectangles
  that \<^verbatim>\<open>_getPos\<close> would measure are its arguments.
\<close>

record mouse =
  pageX :: real
  pageY :: real
  clientX :: real
  clientY :: real

record viewport =
  innerWidth :: real
  innerHeight :: real

record layout =
  parentPos :: rect
  childPos :: rect

definition move :: "mouse \<Rightarrow> real \<Rightarrow> viewport \<Rightarrow> layout \<Rightarrow> n2window \<Rightarrow> n2window \<times> ret" where
  "move event offset vp lay w =
     (if \<not> (active w = Some True) then (w, Undefined)
      else
        let pos = getPos (parentPos lay) (childPos lay);
            pos = (if clientX event < innerWidth vp / 2
                   then (let pos = pos\<lparr> left := pageX event + offset \<rparr>
                         in pos\<lparr> right := left pos + width pos \<rparr>)
                   else (let pos = pos\<lparr> right := pageX event - offset \<rparr>
                         in pos\<lparr> left := right pos - width pos \<rparr>));
            pos = (if clientY event < innerHeight vp / 2
                   then (let pos = pos\<lparr> top' := pageY event + offset \<rparr>
                         in pos\<lparr> bottom := top' pos + height pos \<rparr>)
                   else (let pos = pos\<lparr> bottom := pageY event - offset \<rparr>
                         in pos\<lparr> top' := bottom pos - height pos \<rparr>))
        in (setPos pos w, This))"

text \<open>
  \<^verbatim>\<open>sizeToContent\<close>, given the scroll sizes it reads and the integer that
  \<^verbatim>\<open>parseInt\<close> finds in the border radius.
\<close>

record scrollsizes =
  body_scrollWidth :: real
  body_scrollHeight :: real
  header_scrollHeight :: real
  footer_scrollHeight :: real
  border_radius :: real

definition sizeToContent :: "scrollsizes \<Rightarrow> n2window \<Rightarrow> n2window" where
  "sizeToContent sc w =
     (let contentWidth = body_scrollWidth sc;
          contentHeight = body_scrollHeight sc;
          headerHeight = header_scrollHeight sc;
          footerHeight = (if footer_inactive w then border_radius sc
                          else footer_scrollHeight sc);
          totalHeight = contentHeight + headerHeight + footerHeight + 2
      in setList [(''width'', px contentWidth), (''height'', px totalHeight)] w)"

text \<open>
  The constructor of \<^verbatim>\<open>N2Window\<close>: the clone of the template \<open>tmpl\<close> gets its id,
  the click listener of the close button is registered, and the window is forced to the
  front. \<open>cls\<close> is the class being instantiated and \<open>uuid\<close> what \<^verbatim>\<open>uuidv4()\<close>
  returns.
\<close>

definition new_N2Window ::
  "wclass \<Rightarrow> jsstr option \<Rightarrow> jsstr \<Rightarrow> dom \<Rightarrow> real \<Rightarrow> real \<times> n2window" where
  "new_N2Window cls newId uuid tmpl zIndex =
     bringToFront True zIndex
       \<lparr> el_id = (if truthy newId then the newId else str ''win'' @ uuid),
         styles = styles tmpl,
         window_inactive = window_inactive tmpl,
         title_html = title_html tmpl,
         contents_class = contents_class tmpl,
         header_styles = header_styles tmpl,
         header_draggable = header_draggable tmpl,
         footer_styles = footer_styles tmpl,
         footer_inactive = footer_inactive tmpl,
         closeButton_inactive = closeButton_inactive tmpl,
         resizer_classes = resizer_classes tmpl,
         wclass = cls,
         min_size = None,
         active = None,
         closeButton_click = True,
         header_mousedown = False,
         resizer_mousedown = [],
         in_document = True \<rparr>"

subsection \<open>\<^verbatim>\<open>N2WindowDraggable\<close> and \<^verbatim>\<open>N2WindowResizable\<close>\<close>

text \<open>
  \<^verbatim>\<open>_setupDrag\<close> and \<^verbatim>\<open>_setupResizers\<close> register listeners; what the listeners
  do is defined below, on the whole process.
\<close>

definition setupDrag :: "n2window \<Rightarrow> n2window" where
  "setupDrag w = w\<lparr> header_draggable := True, header_mousedown := True \<rparr>"

definition new_N2WindowDraggable ::
  "wclass \<Rightarrow> jsstr option \<Rightarrow> jsstr \<Rightarrow> dom \<Rightarrow> real \<Rightarrow> real \<times> n2window" where
  "new_N2WindowDraggable cls newId uuid tmpl zIndex =
     (let (z, w) = new_N2Window cls newId uuid tmpl zIndex in (z, setupDrag w))"

definition setupResizers :: "n2window \<Rightarrow> n2window" where
  "setupResizers w =
     fold (\<lambda>name w.
             w\<lparr> resizer_classes := resizer_classes w @
                   [str ''rsz-'' @ str (resizer_name name) @ str '' rsz-''
                    @ str (resizerClassNames name)],
                resizer_mousedown := resizer_mousedown w @ [name] \<rparr>)
          all_resizers w"

definition new_N2WindowResizable ::
  "jsstr option \<Rightarrow> jsstr \<Rightarrow> dom \<Rightarrow> real \<Rightarrow> real \<Rightarrow> real \<Rightarrow> real \<times> n2window" where
  "new_N2WindowResizable newId uuid tmpl minWidth minHeight zIndex =
     (let (z, w) = new_N2WindowDraggable N2WindowResizable newId uuid tmpl zIndex;
          w = w\<lparr> min_size := Some \<lparr> min_width = minWidth, min_height = minHeight \<rparr> \<rparr>
      in (z, setupResizers w))"

text \<open>The setters \<^verbatim>\<open>minWidth\<close> and \<^verbatim>\<open>minHeight\<close> of a resizable window.\<close>

definition minWidth_set :: "real \<Rightarrow> n2window \<Rightarrow> n2window" where
  "minWidth_set val w =
     (case min_size w of None \<Rightarrow> w
      | Some m \<Rightarrow> w\<lparr> min_size := Some (m\<lparr> min_width := val \<rparr>) \<rparr>)"

definition minHeight_set :: "real \<Rightarrow> n2window \<Rightarrow> n2window" where
  "minHeight_set val w =
     (case min_size w of None \<Rightarrow> w
      | Some m \<Rightarrow> w\<lparr> min_size := Some (m\<lparr> min_height := val \<rparr>) \<rparr>)"

subsection \<open>The process: all windows, the counter and the listeners on the page\<close>

text \<open>
  The mousedown listeners register a pair of listeners for \<^verbatim>\<open>mousemove\<close> and
  \<^verbatim>\<open>mouseup\<close> on the global \<^verbatim>\<open>window\<close>; the pair shares the variables captured
  at mousedown. \<open>Dragging self dragStart newTrans\<close> is the pair of \<^verbatim>\<open>_setupDrag\<close>,
  \<open>Resizing self dirs startSize dragStart newPos newSize\<close> the pair of
  \<^verbatim>\<open>_setupResizers\<close>, where \<^term>\<open>None\<close> is the empty object that \<^verbatim>\<open>newSize\<close>
  starts as. Registering a pair replaces the pair that was there.
\<close>

datatype interaction =
    Dragging nat "real list" "real list"
  | Resizing nat "side list" posInfo "real list" "real list" "posInfo option"

record process =
  zIndex :: real
  wins :: "n2window list"
  listening :: "interaction option"

definition init_process :: process where
  "init_process = \<lparr> zIndex = 10, wins = [], listening = None \<rparr>"

text \<open>Reading \<^verbatim>\<open>startSize[dirs[i]]\<close>, \<^verbatim>\<open>startSize[dv.min]\<close> and \<^verbatim>\<open>self.min[dv.min]\<close>.\<close>

fun side_get :: "posInfo \<Rightarrow> side \<Rightarrow> real" where
  "side_get g Side_top = top' g"
| "side_get g Side_right = right g"
| "side_get g Side_bottom = bottom g"
| "side_get g Side_left = left g"

fun side_set :: "posInfo \<Rightarrow> side \<Rightarrow> real \<Rightarrow> posInfo" where
  "side_set g Side_top v = g\<lparr> top' := v \<rparr>"
| "side_set g Side_right v = g\<lparr> right := v \<rparr>"
| "side_set g Side_bottom v = g\<lparr> bottom := v \<rparr>"
| "side_set g Side_left v = g\<lparr> left := v \<rparr>"

fun dim_get :: "posInfo \<Rightarrow> dimension \<Rightarrow> real" where
  "dim_get g Dim_width = width g"
| "dim_get g Dim_height = height g"

fun min_get :: "minsize \<Rightarrow> dimension \<Rightarrow> real" where
  "min_get m Dim_width = min_width m"
| "min_get m Dim_height = min_height m"

text \<open>\<^verbatim>\<open>Object.assign(newSize, startSize)\<close> copies every key of \<^verbatim>\<open>startSize\<close>.\<close>

definition object_assign :: "posInfo option \<Rightarrow> posInfo \<Rightarrow> posInfo" where
  "object_assign target source =
     (case target of
        None \<Rightarrow> source
      | Some t \<Rightarrow> t\<lparr> top' := top' source, right := right source, bottom := bottom source,
                     left := left source, width := width source, height := height source,
                     parentWidth := parentWidth source,
                     parentHeight := parentHeight source \<rparr>)"

text \<open>The loop over \<^verbatim>\<open>dirs\<close> in the mousemove listener of a resizer.\<close>

fun resize_sides :: "side list \<Rightarrow> posInfo \<Rightarrow> minsize \<Rightarrow> real list \<Rightarrow> posInfo \<Rightarrow> posInfo" where
  "resize_sides [] startSize m newPos newSize = newSize"
| "resize_sides (d # ds) startSize m newPos newSize =
     (let dv = dirVals d;
          dimLimit = side_get startSize d + dim_get startSize (dmin dv) - min_get m (dmin dv);
          newVal = side_get startSize d + (newPos ! idx dv) * mult dv
      in resize_sides ds startSize m newPos
           (side_set newSize d (if newVal > dimLimit then dimLimit else newVal)))"

text \<open>The geometry that the mousemove listener of a resizer hands to \<^verbatim>\<open>_setPos\<close>.\<close>

definition resize_newSize ::
  "side list \<Rightarrow> posInfo \<Rightarrow> minsize \<Rightarrow> real list \<Rightarrow> posInfo option \<Rightarrow> posInfo" where
  "resize_newSize ds startSize m newPos newSize0 =
     (let newSize = object_assign newSize0 startSize;
          newSize = resize_sides ds startSize m newPos newSize;
          newSize = newSize\<lparr> width := parentWidth startSize - (right newSize + left newSize) \<rparr>;
          newSize = newSize\<lparr> height := parentHeight startSize - (top' newSize + bottom newSize) \<rparr>
      in newSize)"

text \<open>The click listener of the close button.\<close>

definition closeButton_click_listener :: "nat \<Rightarrow> process \<Rightarrow> process" where
  "closeButton_click_listener self p =
     (if self < length (wins p) then p\<lparr> wins := (wins p)[self := close (wins p ! self)] \<rparr>
      else p)"

text \<open>The mousedown listener of the header, registered by \<^verbatim>\<open>_setupDrag\<close>.\<close>

definition header_mousedown_listener :: "nat \<Rightarrow> mouse \<Rightarrow> process \<Rightarrow> process" where
  "header_mousedown_listener self ev p =
     (if self < length (wins p) then
        let (z, w) = bringToFront False (zIndex p) (wins p ! self);
            w = w\<lparr> styles := (styles w)(''cursor'' \<mapsto> str ''grabbing''),
                   header_styles := (header_styles w)(''cursor'' \<mapsto> str ''grabbing'') \<rparr>;
            dragStart = [pageX ev, pageY ev];
            newTrans = [0, 0]
        in p\<lparr> zIndex := z, wins := (wins p)[self := w],
               listening := Some (Dragging self dragStart newTrans) \<rparr>
      else p)"

text \<open>The mousedown listener of a resizer, registered by \<^verbatim>\<open>_setupResizers\<close>.\<close>

definition resizer_mousedown_listener ::
  "nat \<Rightarrow> resizer \<Rightarrow> mouse \<Rightarrow> layout \<Rightarrow> process \<Rightarrow> process" where
  "resizer_mousedown_listener self name ev lay p =
     (if self < length (wins p) then
        let startSize = getPos (parentPos lay) (childPos lay);
            (z, w) = bringToFront False (zIndex p) (wins p ! self);
            dragStart = [pageX ev, pageY ev];
            newPos = [0, 0]
        in p\<lparr> zIndex := z, wins := (wins p)[self := w],
               listening := Some (Resizing self (dirs name) startSize dragStart newPos None) \<rparr>
      else p)"

text \<open>
  The mousemove listener on the page. A resizer exists only on a resizable window, whose
  \<^verbatim>\<open>min\<close> is set; on a window without it the read of \<^verbatim>\<open>self.min[dv.min]\<close> would
  throw and nothing would be applied.
\<close>

definition mousemove_listener :: "mouse \<Rightarrow> process \<Rightarrow> process" where
  "mousemove_listener ev p =
     (case listening p of
        None \<Rightarrow> p
      | Some (Dragging self dragStart newTrans0) \<Rightarrow>
          (if self < length (wins p) then
             let newTrans = [pageX ev - dragStart ! 0, pageY ev - dragStart ! 1];
                 dragDiv = wins p ! self;
                 dragDiv = dragDiv\<lparr> styles := (styles dragDiv)
                             (''transform'' \<mapsto> translate (newTrans ! 0) (newTrans ! 1)) \<rparr>
             in p\<lparr> wins := (wins p)[self := dragDiv],
                    listening := Some (Dragging self dragStart newTrans) \<rparr>
           else p)
      | Some (Resizing self ds startSize dragStart newPos0 newSize0) \<Rightarrow>
          (if self < length (wins p) then
             (case min_size (wins p ! self) of
                None \<Rightarrow> p
              | Some m \<Rightarrow>
                  let newPos = [pageX ev - dragStart ! 0, pageY ev - dragStart ! 1];
                      newSize = resize_newSize ds startSize m newPos newSize0
                  in p\<lparr> wins := (wins p)[self := setPos newSize (wins p ! self)],
                         listening :=
                           Some (Resizing self ds startSize dragStart newPos (Some newSize)) \<rparr>)
           else p))"

text \<open>
  The mouseup listener on the page; \<open>lay\<close> is what \<^verbatim>\<open>_getPos\<close> measures when a drag
  ends.
\<close>

definition mouseup_listener :: "layout \<Rightarrow> process \<Rightarrow> process" where
  "mouseup_listener lay p =
     (case listening p of
        None \<Rightarrow> p
      | Some (Dragging self dragStart newTrans) \<Rightarrow>
          (if self < length (wins p) then
             let w = setPos (getPos (parentPos lay) (childPos lay)) (wins p ! self);
                 w = w\<lparr> styles := (styles w)(''cursor'' \<mapsto> str ''auto'', ''transform'' := None),
                        header_styles := (header_styles w)(''cursor'' \<mapsto> str ''grab'') \<rparr>
             in p\<lparr> wins := (wins p)[self := w], listening := None \<rparr>
           else p)
      | Some (Resizing self ds startSize dragStart newPos newSize) \<Rightarrow>
          p\<lparr> listening := None \<rparr>)"

subsection \<open>Calls and events\<close>

text \<open>
  Everything that can happen to the process: a constructor, a method called on the
  window with a given index, or an event. An event reaches a listener only while the
  listener is registered. A method that leaves the counter alone is lifted by
  \<open>on_window\<close>, one that may change it by \<open>on_window_z\<close>.
\<close>

datatype call =
    New_N2Window "jsstr option" jsstr dom
  | New_N2WindowDraggable "jsstr option" jsstr dom
  | New_N2WindowResizable "jsstr option" jsstr dom real real
  | BringToFront nat bool
  | Show nat
  | Hide nat
  | Title nat "jsstr option"
  | Theme nat "jsstr option"
  | Set nat string jsstr
  | SetList nat "(string \<times> jsstr) list"
  | Close nat
  | HideCloseButton nat
  | ShowCloseButton nat
  | ShowFooter nat
  | RibbonColor nat jsstr
  | Move nat mouse real viewport layout
  | SizeToContent nat scrollsizes
  | MinWidth nat real
  | MinHeight nat real
  | Click_closeButton nat
  | Mousedown_header nat mouse
  | Mousedown_resizer nat resizer mouse layout
  | Mousemove mouse
  | Mouseup layout

definition on_window :: "nat \<Rightarrow> (n2window \<Rightarrow> n2window) \<Rightarrow> process \<Rightarrow> process" where
  "on_window i f p =
     (if i < length (wins p) then p\<lparr> wins := (wins p)[i := f (wins p ! i)] \<rparr> else p)"

definition on_window_z ::
  "nat \<Rightarrow> (real \<Rightarrow> n2window \<Rightarrow> real \<times> n2window) \<Rightarrow> process \<Rightarrow> process" where
  "on_window_z i f p =
     (if i < length (wins p)
      then (let (z, w) = f (zIndex p) (wins p ! i) in p\<lparr> zIndex := z, wins := (wins p)[i := w] \<rparr>)
      else p)"

definition add_window :: "real \<times> n2window \<Rightarrow> process \<Rightarrow> process" where
  "add_window zw p = p\<lparr> zIndex := fst zw, wins := wins p @ [snd zw] \<rparr>"

fun step :: "call \<Rightarrow> process \<Rightarrow> process" where
  "step (New_N2Window newId uuid tmpl) p =
     add_window (new_N2Window N2Window newId uuid tmpl (zIndex p)) p"
| "step (New_N2WindowDraggable newId uuid tmpl) p =
     add_window (new_N2WindowDraggable N2WindowDraggable newId uuid tmpl (zIndex p)) p"
| "step (New_N2WindowResizable newId uuid tmpl minWidth minHeight) p =
     add_window (new_N2WindowResizable newId uuid tmpl minWidth minHeight (zIndex p)) p"
| "step (BringToFront i force) p = on_window_z i (bringToFront force) p"
| "step (Show i) p = on_window_z i show_window p"
| "step (Hide i) p = on_window_z i hide p"
| "step (Title i newTitle) p = on_window i (\<lambda>w. fst (title newTitle w)) p"
| "step (Theme i newTheme) p = on_window i (\<lambda>w. fst (theme newTheme w)) p"
| "step (Set i opt val) p = on_window i (set_opt opt val) p"
| "step (SetList i options) p = on_window i (setList options) p"
| "step (Close i) p = on_window i close p"
| "step (HideCloseButton i) p = on_window i hideCloseButton p"
| "step (ShowCloseButton i) p = on_window i showCloseButton p"
| "step (ShowFooter i) p = on_window i showFooter p"
| "step (RibbonColor i color) p = on_window i (ribbonColor color) p"
| "step (Move i event offset vp lay) p = on_window i (\<lambda>w. fst (move event offset vp lay w)) p"
| "step (SizeToContent i sc) p = on_window i (sizeToContent sc) p"
| "step (MinWidth i val) p = on_window i (minWidth_set val) p"
| "step (MinHeight i val) p = on_window i (minHeight_set val) p"
| "step (Click_closeButton i) p =
     (if i < length (wins p) \<and> closeButton_click (wins p ! i)
      then closeButton_click_listener i p else p)"
| "step (Mousedown_header i ev) p =
     (if i < length (wins p) \<and> header_mousedown (wins p ! i)
      then header_mousedown_listener i ev p else p)"
| "step (Mousedown_resizer i name ev lay) p =
     (if i < length (wins p) \<and> name \<in> set (resizer_mousedown (wins p ! i))
      then resizer_mousedown_listener i name ev lay p else p)"
| "step (Mousemove ev) p = mousemove_listener ev p"
| "step (Mouseup lay) p = mouseup_listener lay p"

text \<open>A history of the process: the calls and events, from the first to the last.\<close>

definition run :: "call list \<Rightarrow> process \<Rightarrow> process" where
  "run cs p = fold step cs p"

text \<open>The stack order of a window: its \<^verbatim>\<open>z-index\<close> read as a number.\<close>

definition stackOrder :: "n2window \<Rightarrow> real option" where
  "stackOrder w = (case styles w ''z-index'' of None \<Rightarrow> None | Some s \<Rightarrow> to_number s)"

subsection \<open>The arithmetic of a resize in floating point\<close>

text \<open>
  JavaScript computes in IEEE double precision: every \<^verbatim>\<open>+\<close>, \<^verbatim>\<open>-\<close> and
  \<^verbatim>\<open>*\<close> returns the exact result rounded. \<open>resize_sides_fl\<close> and
  \<open>resize_newSize_fl\<close> repeat \<open>resize_sides\<close> and \<open>resize_newSize\<close> with
  the rounding \<open>rnd\<close> applied to the result of each of these operations, in the order
  in which the mousemove listener of a resizer evaluates them; with the identity for
  \<open>rnd\<close> they are the exact ones. Nothing is assumed of \<open>rnd\<close>.
\<close>

fun resize_sides_fl ::
  "(real \<Rightarrow> real) \<Rightarrow> side list \<Rightarrow> posInfo \<Rightarrow> minsize \<Rightarrow> real list \<Rightarrow> posInfo \<Rightarrow> posInfo" where
  "resize_sides_fl rnd [] startSize m newPos newSize = newSize"
| "resize_sides_fl rnd (d # ds) startSize m newPos newSize =
     (let dv = dirVals d;
          dimLimit = rnd (rnd (side_get startSize d + dim_get startSize (dmin dv))
                          - min_get m (dmin dv));
          newVal = rnd (side_get startSize d + rnd ((newPos ! idx dv) * mult dv))
      in resize_sides_fl rnd ds startSize m newPos
           (side_set newSize d (if newVal > dimLimit then dimLimit else newVal)))"

definition resize_newSize_fl ::
  "(real \<Rightarrow> real) \<Rightarrow> side list \<Rightarrow> posInfo \<Rightarrow> minsize \<Rightarrow> real list \<Rightarrow> posInfo option
     \<Rightarrow> posInfo" where
  "resize_newSize_fl rnd ds startSize m newPos newSize0 =
     (let newSize = object_assign newSize0 startSize;
          newSize = resize_sides_fl rnd ds startSize m newPos newSize;
          newSize = newSize\<lparr> width :=
                      rnd (parentWidth startSize - rnd (right newSize + left newSize)) \<rparr>;
          newSize = newSize\<lparr> height :=
                      rnd (parentHeight startSize - rnd (top' newSize + bottom newSize)) \<rparr>
      in newSize)"

text \<open>
  The error of one rounding; the errors of the two roundings in \<^verbatim>\<open>dimLimit\<close> of a
  side; the errors of the two roundings in the width, or the height, that is derived
  from the sides of \<open>newSize\<close>; and by how much a geometry misses
  width = parentWidth - left - right, or the same for the height.
\<close>

definition err :: "(real \<Rightarrow> real) \<Rightarrow> real \<Rightarrow> real" where
  "err rnd x = \<bar>rnd x - x\<bar>"

definition limit_err :: "(real \<Rightarrow> real) \<Rightarrow> posInfo \<Rightarrow> minsize \<Rightarrow> side \<Rightarrow> real" where
  "limit_err rnd startSize m d =
     err rnd (side_get startSize d + dim_get startSize (dmin (dirVals d)))
     + err rnd (rnd (side_get startSize d + dim_get startSize (dmin (dirVals d)))
                - min_get m (dmin (dirVals d)))"

fun derive_err :: "(real \<Rightarrow> real) \<Rightarrow> posInfo \<Rightarrow> posInfo \<Rightarrow> dimension \<Rightarrow> real" where
  "derive_err rnd startSize newSize Dim_width =
     err rnd (right newSize + left newSize)
     + err rnd (parentWidth startSize - rnd (right newSize + left newSize))"
| "derive_err rnd startSize newSize Dim_height =
     err rnd (top' newSize + bottom newSize)
     + err rnd (parentHeight startSize - rnd (top' newSize + bottom newSize))"

fun defect :: "posInfo \<Rightarrow> dimension \<Rightarrow> real" where
  "defect g Dim_width = parentWidth g - left g - right g - width g"
| "defect g Dim_height = parentHeight g - top' g - bottom g - height g"

subsection \<open>Reading the model\<close>

text \<open>
  A resizer controls a dimension when one of its sides has that dimension as its
  \<^verbatim>\<open>min\<close> in \<^verbatim>\<open>dirVals\<close>.
\<close>

definition controls :: "resizer \<Rightarrow> dimension \<Rightarrow> bool" where
  "controls name dm = list_ex (\<lambda>d. dmin (dirVals d) = dm) (dirs name)"

text \<open>
  The number in a style of the form \<^verbatim>\<open>`${v}px`\<close>, and the number that a window has
  in one of its styles.
\<close>

fun px_value :: "jsstr \<Rightarrow> real option" where
  "px_value [Num v, Ch a, Ch b] = (if a = CHR ''p'' \<and> b = CHR ''x'' then Some v else None)"
| "px_value s = None"

definition written :: "n2window \<Rightarrow> string \<Rightarrow> real option" where
  "written w s = (case styles w s of None \<Rightarrow> None | Some v \<Rightarrow> px_value v)"

text \<open>
  The six styles of the geometry are all set, and the width and the height are what the
  size of the container leaves between the sides.
\<close>

definition geometry_consistent :: "real \<Rightarrow> real \<Rightarrow> n2window \<Rightarrow> bool" where
  "geometry_consistent containerWidth containerHeight w =
     (case (written w ''top'', written w ''right'', written w ''bottom'',
            written w ''left'', written w ''width'', written w ''height'') of
        (Some t, Some r, Some b, Some l, Some wd, Some ht) \<Rightarrow>
           wd = containerWidth - l - r \<and> ht = containerHeight - t - b
      | _ \<Rightarrow> False)"

text \<open>
  A call that writes the \<^verbatim>\<open>z-index\<close> style directly, through \<^verbatim>\<open>set\<close> or
  \<^verbatim>\<open>setList\<close>, instead of leaving it to \<^verbatim>\<open>bringToFront\<close>: under that
  name in any case of the letters, or under the shorthand \<^verbatim>\<open>all\<close>, which stands
  for every property.
\<close>

definition z_index_name :: "string \<Rightarrow> bool" where
  "z_index_name opt = (css_name opt = ''z-index'' \<or> css_name opt = ''all'')"

fun sets_z_index :: "call \<Rightarrow> bool" where
  "sets_z_index (Set i opt val) = z_index_name opt"
| "sets_z_index (SetList i options) = list_ex z_index_name (map fst options)"
| "sets_z_index c = False"

text \<open>
  The stack order of a window is a number and at most \<open>z\<close>; in the process, every
  window is at most the counter; and no window has the field \<^verbatim>\<open>active\<close>.
\<close>

definition at_most :: "real \<Rightarrow> n2window \<Rightarrow> bool" where
  "at_most z w = (case stackOrder w of None \<Rightarrow> False | Some v \<Rightarrow> v \<le> z)"

definition stack_inv :: "process \<Rightarrow> bool" where
  "stack_inv p = list_all (at_most (zIndex p)) (wins p)"

definition active_inv :: "process \<Rightarrow> bool" where
  "active_inv p = list_all (\<lambda>w. active w = None) (wins p)"

subsection \<open>Examples\<close>

text \<open>
  A template with one theme class, a container of 1000 by 800 pixels, a pointer event
  at a place of the page, two windows as the browser would measure them, and two
  processes with an interaction under way.
\<close>

definition example_template :: dom where
  "example_template =
     \<lparr> el_id = str ''window-template'',
       styles = Map.empty,
       window_inactive = True,
       title_html = str ''Title'',
       contents_class = str ''window-contents window-theme-light'',
       header_styles = Map.empty,
       header_draggable = False,
       footer_styles = Map.empty,
       footer_inactive = True,
       closeButton_inactive = False,
       resizer_classes = [] \<rparr>"

definition example_container :: rect where
  "example_container = \<lparr> rect_x = 0, rect_y = 0, rect_width = 1000, rect_height = 800 \<rparr>"

definition at_page :: "real \<Rightarrow> real \<Rightarrow> mouse" where
  "at_page x y = \<lparr> pageX = x, pageY = y, clientX = x, clientY = y \<rparr>"

definition low_window :: layout where
  "low_window = \<lparr> parentPos = example_container,
                  childPos = \<lparr> rect_x = 600, rect_y = 100, rect_width = 300, rect_height = 100 \<rparr> \<rparr>"

definition square_window :: layout where
  "square_window = \<lparr> parentPos = example_container,
                  childPos = \<lparr> rect_x = 600, rect_y = 100, rect_width = 300, rect_height = 300 \<rparr> \<rparr>"

definition dragging_example :: process where
  "dragging_example =
     run [New_N2WindowDraggable None (str ''1'') example_template,
          Mousedown_header 0 (at_page 650 110)] init_process"

definition resizing_example :: process where
  "resizing_example =
     run [New_N2WindowResizable None (str ''1'') example_template 200 200,
          Mousedown_resizer 0 Rsz_right (at_page 900 150) square_window] init_process"

text \<open>
  A window of the base class and a resizable window, as their constructors leave them
  when the counter is 10, and a history with two windows.
\<close>

definition example_window :: n2window where
  "example_window = snd (new_N2Window N2Window None (str ''1'') example_template 10)"

definition example_resizable :: n2window where
  "example_resizable = snd (new_N2WindowResizable None (str ''1'') example_template 200 200 10)"

definition two_windows :: "call list" where
  "two_windows = [New_N2Window None (str ''1'') example_template,
                  New_N2WindowDraggable None (str ''2'') example_template,
                  Show 0]"

text \<open>
  A rounding to whole numbers and a baseline with half pixels, to see a rounding error;
  a drag of a window that has been placed, and where it is measured at the end; and a
  history that writes a \<^verbatim>\<open>z-index\<close> through \<^verbatim>\<open>set\<close>.
\<close>

definition round_int :: "real \<Rightarrow> real" where
  "round_int x = of_int \<lfloor>x + 1 / 2\<rfloor>"

definition half_pixel_start :: posInfo where
  "half_pixel_start =
     \<lparr> top' = 100, right = 100.5, bottom = 400, left = 599.5, width = 300, height = 300,
       parentWidth = 1000, parentHeight = 800 \<rparr>"

definition placed_dragging :: process where
  "placed_dragging =
     run [New_N2WindowDraggable None (str ''2'') example_template,
          SetList 0 [(''width'', px 300), (''height'', px 300), (''top'', px 100),
                     (''left'', px 350)],
          Show 0,
          Mousedown_header 0 (at_page 400 110)] init_process"

definition moved_window :: layout where
  "moved_window = \<lparr> parentPos = example_container,
                    childPos = \<lparr> rect_x = 360, rect_y = 120, rect_width = 300, rect_height = 300 \<rparr> \<rparr>"

definition raw_z_index :: "call list" where
  "raw_z_index = [New_N2Window None (str ''a'') example_template,
                  New_N2Window None (str ''b'') example_template,
                  Set 0 ''z-index'' [Num 1000]]"

section \<open>Properties\<close>

subsection \<open>Strings and styles\<close>

lemma string_to_number_Num [simp]: "string_to_number [Num v] = Finite v"
  by (simp add: string_to_number_def trim_def)

lemma to_number_Num [simp]: "to_number [Num v] = Some v"
  by (simp add: to_number_def)

lemma js_less_None [simp]: "js_less None n = False"
  by (simp add: js_less_def)

lemma js_less_to_number: "to_number s = Some v \<Longrightarrow> js_less (Some s) n = (v < n)"
  by (simp add: js_less_def to_number_def split: jsnum.splits)

lemma js_less_Num [simp]: "js_less (Some [Num v]) n = (v < n)"
  by (simp add: js_less_to_number)

lemma css_name_geometry [simp]:
  "css_name ''top'' = ''top''" "css_name ''right'' = ''right''"
  "css_name ''bottom'' = ''bottom''" "css_name ''left'' = ''left''"
  "css_name ''width'' = ''width''" "css_name ''height'' = ''height''"
  by (simp_all add: css_name_def)

lemma z_index_name_geometry [simp]:
  "\<not> z_index_name ''top''" "\<not> z_index_name ''right''" "\<not> z_index_name ''bottom''"
  "\<not> z_index_name ''left''" "\<not> z_index_name ''width''" "\<not> z_index_name ''height''"
  by (simp_all add: z_index_name_def)

lemma px_not_empty [simp]: "px v \<noteq> []"
  by (simp add: px_def)

lemma set_opt_px [simp]:
  "set_opt ''top'' (px v) w = w\<lparr> styles := (styles w)(''top'' \<mapsto> px v) \<rparr>"
  "set_opt ''right'' (px v) w = w\<lparr> styles := (styles w)(''right'' \<mapsto> px v) \<rparr>"
  "set_opt ''bottom'' (px v) w = w\<lparr> styles := (styles w)(''bottom'' \<mapsto> px v) \<rparr>"
  "set_opt ''left'' (px v) w = w\<lparr> styles := (styles w)(''left'' \<mapsto> px v) \<rparr>"
  "set_opt ''width'' (px v) w = w\<lparr> styles := (styles w)(''width'' \<mapsto> px v) \<rparr>"
  "set_opt ''height'' (px v) w = w\<lparr> styles := (styles w)(''height'' \<mapsto> px v) \<rparr>"
  by (simp_all add: set_opt_def style_set_def)

subsection \<open>Geometry\<close>

lemma getPos_width:
  "measured p \<Longrightarrow> measured c \<Longrightarrow>
   width (getPos p c) = parentWidth (getPos p c) - left (getPos p c) - right (getPos p c)"
  by (simp add: getPos_def measured_def rect_left_def rect_right_def min_def max_def)

lemma getPos_height:
  "measured p \<Longrightarrow> measured c \<Longrightarrow>
   height (getPos p c) = parentHeight (getPos p c) - top' (getPos p c) - bottom (getPos p c)"
  by (simp add: getPos_def measured_def rect_top_def rect_bottom_def min_def max_def)

lemma object_assign_source: "object_assign t s = s"
  by (cases t) (simp_all add: object_assign_def)

lemma side_set_frame:
  "parentWidth (side_set g d v) = parentWidth g"
  "parentHeight (side_set g d v) = parentHeight g"
  "width (side_set g d v) = width g"
  "height (side_set g d v) = height g"
  by (cases d; simp)+

lemma resize_sides_frame:
  "parentWidth (resize_sides ds s m np g) = parentWidth g \<and>
   parentHeight (resize_sides ds s m np g) = parentHeight g"
  by (induction ds arbitrary: g) (simp_all add: Let_def side_set_frame)

lemma side_get_side_set:
  "side_get (side_set g d v) e = (if e = d then v else side_get g e)"
  by (cases d; cases e) simp_all

lemma resize_sides_other:
  "e \<notin> set ds \<Longrightarrow> side_get (resize_sides ds s m np g) e = side_get g e"
  by (induction ds arbitrary: g) (auto simp: Let_def side_get_side_set)

lemma resize_sides_capped:
  "e \<in> set ds \<Longrightarrow> distinct ds \<Longrightarrow>
   side_get (resize_sides ds s m np g) e =
     min (side_get s e + (np ! idx (dirVals e)) * mult (dirVals e))
         (side_get s e + dim_get s (dmin (dirVals e)) - min_get m (dmin (dirVals e)))"
  by (induction ds arbitrary: g) (auto simp: Let_def side_get_side_set resize_sides_other min_def)

lemma distinct_dirs: "distinct (dirs name)"
  by (cases name) simp_all

lemma dirs_one_per_axis:
  "\<not> (Side_left \<in> set (dirs name) \<and> Side_right \<in> set (dirs name)) \<and>
   \<not> (Side_top \<in> set (dirs name) \<and> Side_bottom \<in> set (dirs name))"
  by (cases name) simp_all

lemma dirs_split_names: "map side_name (dirs name) = split CHR ''-'' (resizer_name name)"
  by (cases name) (simp_all add: split_def)

lemma styles_setPos:
  "styles (setPos g w) =
     (styles w)(''top'' \<mapsto> px (top' g), ''right'' \<mapsto> px (right g), ''bottom'' \<mapsto> px (bottom g),
                ''left'' \<mapsto> px (left g), ''width'' \<mapsto> px (width g), ''height'' \<mapsto> px (height g))"
  by (simp add: setPos_def)

lemma px_value_px: "px_value (px v) = Some v"
  by (simp add: px_def str_def)

lemma written_setPos:
  "written (setPos g w) ''top'' = Some (top' g)"
  "written (setPos g w) ''right'' = Some (right g)"
  "written (setPos g w) ''bottom'' = Some (bottom g)"
  "written (setPos g w) ''left'' = Some (left g)"
  "written (setPos g w) ''width'' = Some (width g)"
  "written (setPos g w) ''height'' = Some (height g)"
  by (simp_all add: written_def styles_setPos px_value_px)

lemma geometry_consistent_setPos:
  "geometry_consistent cw ch (setPos g w) =
     (width g = cw - left g - right g \<and> height g = ch - top' g - bottom g)"
  by (simp add: geometry_consistent_def written_setPos)

lemma resize_newSize_derived:
  "width (resize_newSize ds s m np n0) =
      parentWidth s - left (resize_newSize ds s m np n0) - right (resize_newSize ds s m np n0)"
  "height (resize_newSize ds s m np n0) =
      parentHeight s - top' (resize_newSize ds s m np n0) - bottom (resize_newSize ds s m np n0)"
  by (simp_all add: resize_newSize_def Let_def)

lemma setPos_frame:
  "min_size (setPos g w) = min_size w"
  "active (setPos g w) = active w"
  by (simp_all add: setPos_def)

lemma setPos_setPos: "setPos g (setPos g' w) = setPos g w"
  by (simp add: setPos_def fun_upd_twist)

lemma mousemove_resize_twice:
  assumes "listening p = Some (Resizing self ds startSize dragStart newPos newSize)"
  shows "mousemove_listener e2 (mousemove_listener e1 p) = mousemove_listener e2 p"
proof (cases "self < length (wins p)")
  case False
  with assms show ?thesis by (simp add: mousemove_listener_def)
next
  case True
  show ?thesis
  proof (cases "min_size (wins p ! self)")
    case None
    with assms True show ?thesis by (simp add: mousemove_listener_def)
  next
    case (Some m)
    with assms True show ?thesis
      by (simp add: mousemove_listener_def Let_def setPos_frame setPos_setPos
            resize_newSize_def object_assign_source)
  qed
qed

lemma mousemove_resize_listening:
  assumes "listening p = Some (Resizing self ds startSize dragStart newPos newSize)"
  shows "\<exists>np ns. listening (mousemove_listener e p) = Some (Resizing self ds startSize dragStart np ns)"
  using assms by (simp add: mousemove_listener_def Let_def split: option.splits)

lemma run_mousemoves:
  assumes "listening p = Some (Resizing self ds startSize dragStart newPos newSize)"
  shows "run (map Mousemove (evs @ [e])) p = mousemove_listener e p"
  using assms
proof (induction evs arbitrary: p newPos newSize)
  case Nil
  then show ?case by (simp add: run_def)
next
  case (Cons a evs)
  from mousemove_resize_listening [OF Cons.prems, of a]
  obtain np ns where l: "listening (mousemove_listener a p) =
      Some (Resizing self ds startSize dragStart np ns)" by blast
  have "run (map Mousemove ((a # evs) @ [e])) p =
        run (map Mousemove (evs @ [e])) (mousemove_listener a p)"
    by (simp add: run_def)
  also have "\<dots> = mousemove_listener e (mousemove_listener a p)"
    using Cons.IH [OF l] .
  also have "\<dots> = mousemove_listener e p"
    using mousemove_resize_twice [OF Cons.prems] .
  finally show ?case .
qed

subsection \<open>Rounding\<close>

lemma resize_sides_fl_id:
  "resize_sides_fl (\<lambda>x. x) ds s m np g = resize_sides ds s m np g"
  by (induction ds arbitrary: g) (simp_all add: Let_def)

lemma resize_newSize_fl_id:
  "resize_newSize_fl (\<lambda>x. x) ds s m np n0 = resize_newSize ds s m np n0"
  by (simp add: resize_newSize_fl_def resize_newSize_def resize_sides_fl_id)

lemma clamp_bound:
  assumes "n \<le> rnd (rnd (a + D0) - mn)"
  shows "mn - (err rnd (a + D0) + err rnd (rnd (a + D0) - mn)
               + (err rnd x + err rnd (P - rnd x)) + \<bar>P - (x - n) - a - D0\<bar>)
         \<le> rnd (P - rnd x)"
  using assms unfolding err_def by arith

lemma keep_bound:
  "\<bar>rnd (P - rnd x) - D0\<bar> \<le> (err rnd x + err rnd (P - rnd x)) + \<bar>P - x - D0\<bar>"
  unfolding err_def by arith

lemma defect_getPos:
  "measured p \<Longrightarrow> measured c \<Longrightarrow> defect (getPos p c) D = 0"
  using getPos_width [of p c] getPos_height [of p c] by (cases D) simp_all

lemma controls_cases:
  "controls name D = (\<exists>d \<in> set (dirs name). dmin (dirVals d) = D)"
  by (simp add: controls_def list_ex_iff)

lemma resize_sides_fl_other:
  "e \<notin> set ds \<Longrightarrow> side_get (resize_sides_fl rnd ds s m np g) e = side_get g e"
  by (induction ds arbitrary: g) (auto simp: Let_def side_get_side_set)

lemma resize_sides_fl_capped:
  "e \<in> set ds \<Longrightarrow> distinct ds \<Longrightarrow>
   side_get (resize_sides_fl rnd ds s m np g) e =
     min (rnd (side_get s e + rnd ((np ! idx (dirVals e)) * mult (dirVals e))))
         (rnd (rnd (side_get s e + dim_get s (dmin (dirVals e))) - min_get m (dmin (dirVals e))))"
  by (induction ds arbitrary: g)
     (auto simp: Let_def side_get_side_set resize_sides_fl_other min_def)

lemma resize_newSize_fl_sides:
  "side_get (resize_newSize_fl rnd ds s m np n0) e =
     side_get (resize_sides_fl rnd ds s m np s) e"
  by (cases e) (simp_all add: resize_newSize_fl_def object_assign_source Let_def)

lemma resize_newSize_fl_dims:
  "width (resize_newSize_fl rnd ds s m np n0) =
     rnd (parentWidth s - rnd (right (resize_sides_fl rnd ds s m np s)
                               + left (resize_sides_fl rnd ds s m np s)))"
  "height (resize_newSize_fl rnd ds s m np n0) =
     rnd (parentHeight s - rnd (top' (resize_sides_fl rnd ds s m np s)
                                + bottom (resize_sides_fl rnd ds s m np s)))"
  by (simp_all add: resize_newSize_fl_def object_assign_source Let_def)

lemma dirs_opposite:
  "Side_top \<in> set (dirs name) \<Longrightarrow> Side_bottom \<notin> set (dirs name)"
  "Side_bottom \<in> set (dirs name) \<Longrightarrow> Side_top \<notin> set (dirs name)"
  "Side_left \<in> set (dirs name) \<Longrightarrow> Side_right \<notin> set (dirs name)"
  "Side_right \<in> set (dirs name) \<Longrightarrow> Side_left \<notin> set (dirs name)"
  by (cases name; simp)+

lemma controlled_bound:
  assumes "d \<in> set (dirs name)"
    and "newSize = resize_newSize_fl rnd (dirs name) startSize m np newSize0"
  shows "min_get m (dmin (dirVals d))
           - (limit_err rnd startSize m d
              + derive_err rnd startSize newSize (dmin (dirVals d))
              + \<bar>defect startSize (dmin (dirVals d))\<bar>)
         \<le> dim_get newSize (dmin (dirVals d))"
proof -
  let ?G = "resize_sides_fl rnd (dirs name) startSize m np startSize"
  have sides: "top' newSize = top' ?G" "right newSize = right ?G"
    "bottom newSize = bottom ?G" "left newSize = left ?G"
    using resize_newSize_fl_sides [of rnd "dirs name" startSize m np newSize0 Side_top]
      resize_newSize_fl_sides [of rnd "dirs name" startSize m np newSize0 Side_right]
      resize_newSize_fl_sides [of rnd "dirs name" startSize m np newSize0 Side_bottom]
      resize_newSize_fl_sides [of rnd "dirs name" startSize m np newSize0 Side_left]
    by (simp_all add: assms(2))
  have cap: "side_get ?G d
      \<le> rnd (rnd (side_get startSize d + dim_get startSize (dmin (dirVals d)))
              - min_get m (dmin (dirVals d)))"
    using resize_sides_fl_capped [OF assms(1) distinct_dirs, of rnd startSize m np startSize]
    by simp
  show ?thesis
  proof (cases d)
    case Side_top
    with assms(1) have "Side_bottom \<notin> set (dirs name)" by (simp add: dirs_opposite)
    then have o: "bottom ?G = bottom startSize"
      using resize_sides_fl_other [of Side_bottom "dirs name" rnd startSize m np startSize]
      by simp
    from cap Side_top
    have "top' ?G \<le> rnd (rnd (top' startSize + height startSize) - min_height m)" by simp
    with clamp_bound [of "top' ?G" rnd "top' startSize" "height startSize" "min_height m"
        "top' ?G + bottom ?G" "parentHeight startSize"]
    show ?thesis
      using Side_top o
      by (simp add: assms(2) resize_newSize_fl_dims limit_err_def sides [unfolded assms(2)]
            algebra_simps)
  next
    case Side_bottom
    with assms(1) have "Side_top \<notin> set (dirs name)" by (simp add: dirs_opposite)
    then have o: "top' ?G = top' startSize"
      using resize_sides_fl_other [of Side_top "dirs name" rnd startSize m np startSize]
      by simp
    from cap Side_bottom
    have "bottom ?G \<le> rnd (rnd (bottom startSize + height startSize) - min_height m)" by simp
    with clamp_bound [of "bottom ?G" rnd "bottom startSize" "height startSize" "min_height m"
        "top' ?G + bottom ?G" "parentHeight startSize"]
    show ?thesis
      using Side_bottom o
      by (simp add: assms(2) resize_newSize_fl_dims limit_err_def sides [unfolded assms(2)]
            algebra_simps)
  next
    case Side_left
    with assms(1) have "Side_right \<notin> set (dirs name)" by (simp add: dirs_opposite)
    then have o: "right ?G = right startSize"
      using resize_sides_fl_other [of Side_right "dirs name" rnd startSize m np startSize]
      by simp
    from cap Side_left
    have "left ?G \<le> rnd (rnd (left startSize + width startSize) - min_width m)" by simp
    with clamp_bound [of "left ?G" rnd "left startSize" "width startSize" "min_width m"
        "right ?G + left ?G" "parentWidth startSize"]
    show ?thesis
      using Side_left o
      by (simp add: assms(2) resize_newSize_fl_dims limit_err_def sides [unfolded assms(2)]
            algebra_simps)
  next
    case Side_right
    with assms(1) have "Side_left \<notin> set (dirs name)" by (simp add: dirs_opposite)
    then have o: "left ?G = left startSize"
      using resize_sides_fl_other [of Side_left "dirs name" rnd startSize m np startSize]
      by simp
    from cap Side_right
    have "right ?G \<le> rnd (rnd (right startSize + width startSize) - min_width m)" by simp
    with clamp_bound [of "right ?G" rnd "right startSize" "width startSize" "min_width m"
        "right ?G + left ?G" "parentWidth startSize"]
    show ?thesis
      using Side_right o
      by (simp add: assms(2) resize_newSize_fl_dims limit_err_def sides [unfolded assms(2)]
            algebra_simps)
  qed
qed

lemma uncontrolled_bound:
  assumes "\<not> controls name D"
    and "newSize = resize_newSize_fl rnd (dirs name) startSize m np newSize0"
  shows "\<bar>dim_get newSize D - dim_get startSize D\<bar>
         \<le> derive_err rnd startSize newSize D + \<bar>defect startSize D\<bar>"
proof -
  let ?G = "resize_sides_fl rnd (dirs name) startSize m np startSize"
  have sides: "top' newSize = top' ?G" "right newSize = right ?G"
    "bottom newSize = bottom ?G" "left newSize = left ?G"
    using resize_newSize_fl_sides [of rnd "dirs name" startSize m np newSize0 Side_top]
      resize_newSize_fl_sides [of rnd "dirs name" startSize m np newSize0 Side_right]
      resize_newSize_fl_sides [of rnd "dirs name" startSize m np newSize0 Side_bottom]
      resize_newSize_fl_sides [of rnd "dirs name" startSize m np newSize0 Side_left]
    by (simp_all add: assms(2))
  show ?thesis
  proof (cases D)
    case Dim_width
    with assms(1) have "Side_left \<notin> set (dirs name)" "Side_right \<notin> set (dirs name)"
      by (auto simp: controls_cases)
    then have o: "left ?G = left startSize" "right ?G = right startSize"
      using resize_sides_fl_other [of Side_left "dirs name" rnd startSize m np startSize]
        resize_sides_fl_other [of Side_right "dirs name" rnd startSize m np startSize]
      by simp_all
    from keep_bound [of rnd "parentWidth startSize" "right startSize + left startSize"
        "width startSize"]
    show ?thesis
      using Dim_width o
      by (simp add: assms(2) resize_newSize_fl_dims sides [unfolded assms(2)] algebra_simps)
  next
    case Dim_height
    with assms(1) have "Side_top \<notin> set (dirs name)" "Side_bottom \<notin> set (dirs name)"
      by (auto simp: controls_cases)
    then have o: "top' ?G = top' startSize" "bottom ?G = bottom startSize"
      using resize_sides_fl_other [of Side_top "dirs name" rnd startSize m np startSize]
        resize_sides_fl_other [of Side_bottom "dirs name" rnd startSize m np startSize]
      by simp_all
    from keep_bound [of rnd "parentHeight startSize" "top' startSize + bottom startSize"
        "height startSize"]
    show ?thesis
      using Dim_height o
      by (simp add: assms(2) resize_newSize_fl_dims sides [unfolded assms(2)] algebra_simps)
  qed
qed

lemma err_id: "err (\<lambda>x. x) y = 0"
  by (simp add: err_def)

lemma err_round_int: "err round_int x \<le> 1 / 2"
  unfolding err_def round_int_def by linarith

lemma derive_err_uniform:
  "(\<And>x. err rnd x \<le> u) \<Longrightarrow> derive_err rnd s g D \<le> 2 * u"
proof (cases D)
  case Dim_width
  assume h: "\<And>x. err rnd x \<le> u"
  from h [of "right g + left g"] h [of "parentWidth s - rnd (right g + left g)"] Dim_width
  show ?thesis by simp
next
  case Dim_height
  assume h: "\<And>x. err rnd x \<le> u"
  from h [of "top' g + bottom g"] h [of "parentHeight s - rnd (top' g + bottom g)"] Dim_height
  show ?thesis by simp
qed

lemma limit_err_uniform:
  "(\<And>x. err rnd x \<le> u) \<Longrightarrow> limit_err rnd s m d \<le> 2 * u"
proof -
  assume h: "\<And>x. err rnd x \<le> u"
  from h [of "side_get s d + dim_get s (dmin (dirVals d))"]
    h [of "rnd (side_get s d + dim_get s (dmin (dirVals d))) - min_get m (dmin (dirVals d))"]
  show ?thesis by (simp add: limit_err_def)
qed

lemma controlled_uniform:
  assumes "d \<in> set (dirs name)"
    and "newSize = resize_newSize_fl rnd (dirs name) startSize m np newSize0"
    and "\<forall>x. err rnd x \<le> u"
  shows "min_get m (dmin (dirVals d)) - (4 * u + \<bar>defect startSize (dmin (dirVals d))\<bar>)
         \<le> dim_get newSize (dmin (dirVals d))"
  using controlled_bound [OF assms(1,2)]
    limit_err_uniform [of rnd u startSize m d]
    derive_err_uniform [of rnd u startSize newSize "dmin (dirVals d)"] assms(3)
  by simp

subsection \<open>What the methods leave alone\<close>

lemma title_frame:
  "active (fst (title t w)) = active w"
  "styles (fst (title t w)) = styles w"
  by (simp_all add: title_def)

lemma theme_frame:
  "active (fst (theme t w)) = active w"
  "styles (fst (theme t w)) = styles w"
  by (simp_all add: theme_def Let_def)

lemma set_opt_active: "active (set_opt opt val w) = active w"
  by (simp add: set_opt_def style_set_def title_frame theme_frame)

lemma set_opt_z:
  "\<not> z_index_name opt \<Longrightarrow> styles (set_opt opt val w) ''z-index'' = styles w ''z-index''"
  by (auto simp: set_opt_def style_set_def z_index_name_def title_frame theme_frame)

lemma setList_active: "active (setList options w) = active w"
  by (induction options w rule: setList.induct) (simp_all add: set_opt_active)

lemma setList_z:
  "\<not> list_ex z_index_name (map fst options) \<Longrightarrow>
   styles (setList options w) ''z-index'' = styles w ''z-index''"
  by (induction options w rule: setList.induct) (auto simp: set_opt_z)

lemma setPos_z: "styles (setPos g w) ''z-index'' = styles w ''z-index''"
  by (simp add: styles_setPos)

lemma move_frame:
  "active (fst (move event offset vp lay w)) = active w"
  "styles (fst (move event offset vp lay w)) ''z-index'' = styles w ''z-index''"
  by (simp_all add: move_def Let_def setPos_frame setPos_z)

lemma sizeToContent_frame:
  "active (sizeToContent sc w) = active w"
  "styles (sizeToContent sc w) ''z-index'' = styles w ''z-index''"
  by (simp_all add: sizeToContent_def Let_def setList_active set_opt_active set_opt_z)

lemma close_frame:
  "active (close w) = active w"
  "styles (close w) = styles w"
  by (simp_all add: close_def close_N2Window_def close_N2WindowDraggable_def split: wclass.splits)

lemma small_frame:
  "active (hideCloseButton w) = active w" "styles (hideCloseButton w) = styles w"
  "active (showCloseButton w) = active w" "styles (showCloseButton w) = styles w"
  "active (showFooter w) = active w" "styles (showFooter w) = styles w"
  "active (ribbonColor c w) = active w" "styles (ribbonColor c w) = styles w"
  "active (minWidth_set v w) = active w" "styles (minWidth_set v w) = styles w"
  "active (minHeight_set v w) = active w" "styles (minHeight_set v w) = styles w"
  by (simp_all add: hideCloseButton_def showCloseButton_def showFooter_def ribbonColor_def
        minWidth_set_def minHeight_set_def split: option.splits)

lemma bringToFront_active: "active (snd (bringToFront force z w)) = active w"
  by (simp add: bringToFront_def)

lemma hidden_set_active: "active (snd (hidden_set h z w)) = active w"
  by (simp add: hidden_set_def bringToFront_def Let_def split: prod.splits if_splits)

subsection \<open>The counter and the stack orders\<close>



lemma stackOrder_assigned:
  "stackOrder (w\<lparr> styles := (styles w)(''z-index'' \<mapsto> [Num v]) \<rparr>) = Some v"
  by (simp add: stackOrder_def)

lemma at_most_iff: "at_most z w \<longleftrightarrow> (\<exists>v. stackOrder w = Some v \<and> v \<le> z)"
  by (simp add: at_most_def split: option.splits)

lemma stackOrder_same_style:
  "styles w' ''z-index'' = styles w ''z-index'' \<Longrightarrow> stackOrder w' = stackOrder w"
  by (simp add: stackOrder_def)

lemma at_most_mono: "at_most z w \<Longrightarrow> z \<le> z' \<Longrightarrow> at_most z' w"
  by (auto simp: at_most_iff)

lemma at_most_same_style:
  "styles w' ''z-index'' = styles w ''z-index'' \<Longrightarrow> at_most z w' = at_most z w"
  by (simp add: at_most_def stackOrder_def)

lemma bringToFront_at_most:
  "at_most z w \<Longrightarrow> at_most (fst (bringToFront force z w)) (snd (bringToFront force z w))"
  by (auto simp: bringToFront_def at_most_iff stackOrder_assigned)

lemma bringToFront_grows: "z \<le> fst (bringToFront force z w)"
  by (simp add: bringToFront_def)

lemma hidden_set_unfold:
  "hidden_set h z w =
     (if h then (z, w\<lparr> window_inactive := True \<rparr>)
      else (fst (bringToFront False z w),
            (snd (bringToFront False z w))\<lparr> window_inactive := False \<rparr>))"
  by (cases "bringToFront False z w") (simp add: hidden_set_def)

lemma hidden_set_at_most:
  "at_most z w \<Longrightarrow> at_most (fst (hidden_set h z w)) (snd (hidden_set h z w))"
  using bringToFront_at_most [of z w False]
  by (auto simp: hidden_set_unfold at_most_iff stackOrder_def)

lemma hidden_set_grows: "z \<le> fst (hidden_set h z w)"
  using bringToFront_grows [of z False w]
  by (simp add: hidden_set_unfold)

lemma new_N2Window_at_most:
  "at_most (z + 1) (snd (new_N2Window cls newId uuid tmpl z))"
  "fst (new_N2Window cls newId uuid tmpl z) = z + 1"
  "active (snd (new_N2Window cls newId uuid tmpl z)) = None"
  by (simp_all add: new_N2Window_def bringToFront_def at_most_iff stackOrder_def)

lemma new_N2WindowDraggable_at_most:
  "at_most (z + 1) (snd (new_N2WindowDraggable cls newId uuid tmpl z))"
  "fst (new_N2WindowDraggable cls newId uuid tmpl z) = z + 1"
  "active (snd (new_N2WindowDraggable cls newId uuid tmpl z)) = None"
  using new_N2Window_at_most [where z = z and cls = cls and newId = newId and uuid = uuid
      and tmpl = tmpl]
  by (cases "new_N2Window cls newId uuid tmpl z";
      simp add: new_N2WindowDraggable_def setupDrag_def at_most_iff stackOrder_def)+

lemma setupResizers_frame:
  "styles (setupResizers w) = styles w" "active (setupResizers w) = active w"
  by (simp_all add: setupResizers_def all_resizers_def)

lemma new_N2WindowResizable_at_most:
  "at_most (z + 1) (snd (new_N2WindowResizable newId uuid tmpl mw mh z))"
  "fst (new_N2WindowResizable newId uuid tmpl mw mh z) = z + 1"
  "active (snd (new_N2WindowResizable newId uuid tmpl mw mh z)) = None"
  using new_N2WindowDraggable_at_most [where z = z and cls = N2WindowResizable
      and newId = newId and uuid = uuid and tmpl = tmpl]
  by (cases "new_N2WindowDraggable N2WindowResizable newId uuid tmpl z";
      simp add: new_N2WindowResizable_def setupResizers_frame at_most_iff stackOrder_def)+

lemma list_all_update:
  "list_all P xs \<Longrightarrow> P y \<Longrightarrow> list_all P (xs[i := y])"
  using set_update_subset_insert [of xs i y] by (auto simp: list_all_iff)

lemma stack_inv_on_window:
  assumes "stack_inv p" and "\<And>w. styles (f w) ''z-index'' = styles w ''z-index''"
  shows "stack_inv (on_window i f p)"
proof (cases "i < length (wins p)")
  case False
  with assms(1) show ?thesis by (simp add: on_window_def)
next
  case True
  with assms(1) have "at_most (zIndex p) (wins p ! i)"
    by (simp add: stack_inv_def list_all_length)
  then have "at_most (zIndex p) (f (wins p ! i))"
    using at_most_same_style [OF assms(2)] by simp
  with assms(1) True show ?thesis
    by (simp add: on_window_def stack_inv_def list_all_update)
qed

lemma stack_inv_put:
  assumes "stack_inv p" and "i < length (wins p)" and "at_most z w" and "zIndex p \<le> z"
  shows "stack_inv (p\<lparr> zIndex := z, wins := (wins p)[i := w] \<rparr>)"
proof -
  from assms(1,4) have "list_all (at_most z) (wins p)"
    by (auto simp: stack_inv_def list_all_iff intro: at_most_mono)
  with assms(3) show ?thesis
    by (simp add: stack_inv_def list_all_update)
qed

lemma stack_inv_on_window_z:
  assumes "stack_inv p"
    and "\<And>z w. at_most z w \<Longrightarrow> at_most (fst (f z w)) (snd (f z w))"
    and "\<And>z w. z \<le> fst (f z w)"
  shows "stack_inv (on_window_z i f p)"
proof (cases "i < length (wins p)")
  case False
  with assms(1) show ?thesis by (simp add: on_window_z_def)
next
  case True
  with assms(1) have a: "at_most (zIndex p) (wins p ! i)"
    by (simp add: stack_inv_def list_all_length)
  have "on_window_z i f p =
          p\<lparr> zIndex := fst (f (zIndex p) (wins p ! i)),
             wins := (wins p)[i := snd (f (zIndex p) (wins p ! i))] \<rparr>"
    using True by (simp add: on_window_z_def case_prod_unfold Let_def)
  with stack_inv_put [OF assms(1) True assms(2) [OF a] assms(3)] show ?thesis by simp
qed

lemma stack_inv_add_window:
  assumes "stack_inv p" and "at_most (fst zw) (snd zw)" and "zIndex p \<le> fst zw"
  shows "stack_inv (add_window zw p)"
proof -
  from assms(1,3) have "list_all (at_most (fst zw)) (wins p)"
    by (auto simp: stack_inv_def list_all_iff intro: at_most_mono)
  with assms(2) show ?thesis
    by (simp add: stack_inv_def add_window_def)
qed

lemma stack_inv_header_mousedown:
  assumes "stack_inv p"
  shows "stack_inv (header_mousedown_listener i ev p)"
proof (cases "i < length (wins p)")
  case False
  with assms show ?thesis by (simp add: header_mousedown_listener_def)
next
  case True
  let ?b = "bringToFront False (zIndex p) (wins p ! i)"
  let ?w = "(snd ?b)\<lparr> styles := (styles (snd ?b))(''cursor'' \<mapsto> str ''grabbing''),
                header_styles := (header_styles (snd ?b))(''cursor'' \<mapsto> str ''grabbing'') \<rparr>"
  from assms True have "at_most (zIndex p) (wins p ! i)"
    by (simp add: stack_inv_def list_all_length)
  then have "at_most (fst ?b) (snd ?b)" by (rule bringToFront_at_most)
  then have "at_most (fst ?b) ?w"
    by (simp add: at_most_iff stackOrder_def)
  from stack_inv_put [OF assms True this bringToFront_grows]
  have "stack_inv (p\<lparr> zIndex := fst ?b, wins := (wins p)[i := ?w] \<rparr>)" .
  then have "stack_inv (p\<lparr> zIndex := fst ?b, wins := (wins p)[i := ?w],
                listening := Some (Dragging i [pageX ev, pageY ev] [0, 0]) \<rparr>)"
    by (simp add: stack_inv_def)
  then show ?thesis
    using True by (simp add: header_mousedown_listener_def case_prod_unfold Let_def)
qed

lemma stack_inv_resizer_mousedown:
  assumes "stack_inv p"
  shows "stack_inv (resizer_mousedown_listener i name ev lay p)"
proof (cases "i < length (wins p)")
  case False
  with assms show ?thesis by (simp add: resizer_mousedown_listener_def)
next
  case True
  let ?b = "bringToFront False (zIndex p) (wins p ! i)"
  from assms True have "at_most (zIndex p) (wins p ! i)"
    by (simp add: stack_inv_def list_all_length)
  then have "at_most (fst ?b) (snd ?b)" by (rule bringToFront_at_most)
  from stack_inv_put [OF assms True this bringToFront_grows]
  have "stack_inv (p\<lparr> zIndex := fst ?b, wins := (wins p)[i := snd ?b] \<rparr>)" .
  then have "stack_inv (p\<lparr> zIndex := fst ?b, wins := (wins p)[i := snd ?b],
                listening := Some (Resizing i (dirs name) (getPos (parentPos lay) (childPos lay))
                                     [pageX ev, pageY ev] [0, 0] None) \<rparr>)"
    by (simp add: stack_inv_def)
  then show ?thesis
    using True by (simp add: resizer_mousedown_listener_def case_prod_unfold Let_def)
qed

lemma stack_inv_window_update:
  assumes "stack_inv p" and "i < length (wins p)"
    and "styles w ''z-index'' = styles (wins p ! i) ''z-index''"
  shows "stack_inv (p\<lparr> wins := (wins p)[i := w], listening := l \<rparr>)"
proof -
  from assms(1,2) have "at_most (zIndex p) (wins p ! i)"
    by (simp add: stack_inv_def list_all_length)
  with assms(3) have "at_most (zIndex p) w"
    using at_most_same_style [OF assms(3)] by simp
  with assms(1) show ?thesis
    by (simp add: stack_inv_def list_all_update)
qed

lemma stack_inv_mousemove:
  assumes "stack_inv p"
  shows "stack_inv (mousemove_listener ev p)"
proof (cases "listening p")
  case None
  with assms show ?thesis by (simp add: mousemove_listener_def)
next
  case (Some a)
  show ?thesis
  proof (cases a)
    case (Dragging self dragStart newTrans)
    with Some assms show ?thesis
      by (auto simp: mousemove_listener_def Let_def intro!: stack_inv_window_update)
  next
    case (Resizing self ds startSize dragStart newPos newSize)
    with Some assms show ?thesis
      by (auto simp: mousemove_listener_def Let_def setPos_z
            intro!: stack_inv_window_update split: option.splits)
  qed
qed

lemma stack_inv_mouseup:
  assumes "stack_inv p"
  shows "stack_inv (mouseup_listener lay p)"
proof (cases "listening p")
  case None
  with assms show ?thesis by (simp add: mouseup_listener_def)
next
  case (Some a)
  show ?thesis
  proof (cases a)
    case (Dragging self dragStart newTrans)
    with Some assms show ?thesis
      by (auto simp: mouseup_listener_def Let_def setPos_z intro!: stack_inv_window_update)
  next
    case (Resizing self ds startSize dragStart newPos newSize)
    with Some assms show ?thesis
      by (simp add: mouseup_listener_def stack_inv_def)
  qed
qed

lemma stack_inv_step:
  assumes "\<not> sets_z_index c" and "stack_inv p"
  shows "stack_inv (step c p)"
proof (cases c)
  case (New_N2Window newId uuid tmpl)
  with assms(2) show ?thesis
    by (simp add: stack_inv_add_window new_N2Window_at_most)
next
  case (New_N2WindowDraggable newId uuid tmpl)
  with assms(2) show ?thesis
    by (simp add: stack_inv_add_window new_N2WindowDraggable_at_most)
next
  case (New_N2WindowResizable newId uuid tmpl mw mh)
  with assms(2) show ?thesis
    by (simp add: stack_inv_add_window new_N2WindowResizable_at_most)
next
  case (BringToFront i force)
  with assms(2) show ?thesis
    by (simp add: stack_inv_on_window_z bringToFront_at_most bringToFront_grows)
next
  case (Show i)
  with assms(2) show ?thesis
    by (simp add: stack_inv_on_window_z show_window_def hidden_set_at_most hidden_set_grows)
next
  case (Hide i)
  with assms(2) show ?thesis
    by (simp add: stack_inv_on_window_z hide_def hidden_set_at_most hidden_set_grows)
next
  case (Set i opt val)
  with assms show ?thesis by (simp add: stack_inv_on_window set_opt_z)
next
  case (SetList i options)
  with assms show ?thesis by (simp add: stack_inv_on_window setList_z)
next
  case (Click_closeButton i)
  with assms(2) stack_inv_on_window [OF assms(2), of close i] show ?thesis
    by (auto simp: closeButton_click_listener_def on_window_def close_frame)
next
  case (Mousedown_header i ev)
  with assms(2) show ?thesis by (simp add: stack_inv_header_mousedown)
next
  case (Mousedown_resizer i name ev lay)
  with assms(2) show ?thesis by (simp add: stack_inv_resizer_mousedown)
next
  case (Mousemove ev)
  with assms(2) show ?thesis by (simp add: stack_inv_mousemove)
next
  case (Mouseup lay)
  with assms(2) show ?thesis by (simp add: stack_inv_mouseup)
qed (use assms(2) in \<open>simp_all add: stack_inv_on_window title_frame theme_frame close_frame
      small_frame move_frame sizeToContent_frame\<close>)








lemma stack_inv_run:
  "list_all (\<lambda>c. \<not> sets_z_index c) cs \<Longrightarrow> stack_inv p \<Longrightarrow> stack_inv (run cs p)"
proof (induction cs arbitrary: p)
  case Nil
  then show ?case by (simp add: run_def)
next
  case (Cons c cs)
  then have "stack_inv (step c p)" by (simp add: stack_inv_step)
  with Cons have "stack_inv (run cs (step c p))" by simp
  then show ?case by (simp add: run_def)
qed

lemma stack_inv_init: "stack_inv init_process"
  by (simp add: stack_inv_def init_process_def)

lemma stack_inv_nth:
  "stack_inv p \<Longrightarrow> j < length (wins p) \<Longrightarrow> stackOrder (wins p ! j) = Some v \<Longrightarrow> v \<le> zIndex p"
  by (auto simp: stack_inv_def list_all_length at_most_iff)

subsection \<open>The field that is never assigned\<close>

lemma active_inv_on_window:
  assumes "active_inv p" and "\<And>w. active (f w) = active w"
  shows "active_inv (on_window i f p)"
  using assms by (auto simp: active_inv_def on_window_def list_all_length nth_list_update)

lemma active_inv_on_window_z:
  assumes "active_inv p" and "\<And>z w. active (snd (f z w)) = active w"
  shows "active_inv (on_window_z i f p)"
  using assms
  by (auto simp: active_inv_def on_window_z_def case_prod_unfold Let_def list_all_length nth_list_update)

lemma active_inv_add_window:
  "active_inv p \<Longrightarrow> active (snd zw) = None \<Longrightarrow> active_inv (add_window zw p)"
  by (simp add: active_inv_def add_window_def)

lemma active_inv_put:
  "active_inv p \<Longrightarrow> i < length (wins p) \<Longrightarrow> active w = active (wins p ! i) \<Longrightarrow>
   active_inv (p\<lparr> wins := (wins p)[i := w] \<rparr>)"
  by (auto simp: active_inv_def list_all_length nth_list_update)

lemma active_inv_fields:
  "active_inv (p\<lparr> listening := l \<rparr>) = active_inv p"
  "active_inv (p\<lparr> zIndex := z \<rparr>) = active_inv p"
  by (simp_all add: active_inv_def)

lemma active_inv_header_mousedown:
  "active_inv p \<Longrightarrow> active_inv (header_mousedown_listener i ev p)"
  using bringToFront_active [of False "zIndex p" "wins p ! i"]
  by (auto simp: header_mousedown_listener_def case_prod_unfold Let_def active_inv_def
        list_all_length nth_list_update)

lemma active_inv_resizer_mousedown:
  "active_inv p \<Longrightarrow> active_inv (resizer_mousedown_listener i name ev lay p)"
  using bringToFront_active [of False "zIndex p" "wins p ! i"]
  by (auto simp: resizer_mousedown_listener_def case_prod_unfold Let_def active_inv_def
        list_all_length nth_list_update)

lemma active_inv_mousemove: "active_inv p \<Longrightarrow> active_inv (mousemove_listener ev p)"
  by (auto simp: mousemove_listener_def Let_def active_inv_def list_all_length nth_list_update setPos_frame split: option.splits interaction.splits)

lemma active_inv_mouseup: "active_inv p \<Longrightarrow> active_inv (mouseup_listener lay p)"
  by (auto simp: mouseup_listener_def Let_def active_inv_def list_all_length nth_list_update setPos_frame split: option.splits interaction.splits)

lemma active_inv_step:
  assumes "active_inv p"
  shows "active_inv (step c p)"
proof (cases c)
  case (Click_closeButton i)
  with assms active_inv_on_window [OF assms, of close i] show ?thesis
    by (auto simp: closeButton_click_listener_def on_window_def close_frame)
qed (use assms in \<open>simp_all add: active_inv_on_window active_inv_on_window_z
      active_inv_add_window new_N2Window_at_most new_N2WindowDraggable_at_most
      new_N2WindowResizable_at_most bringToFront_active show_window_def hide_def
      hidden_set_active title_frame theme_frame set_opt_active setList_active close_frame
      small_frame move_frame sizeToContent_frame active_inv_header_mousedown
      active_inv_resizer_mousedown active_inv_mousemove active_inv_mouseup\<close>)

lemma active_inv_run: "active_inv p \<Longrightarrow> active_inv (run cs p)"
proof (induction cs arbitrary: p)
  case Nil
  then show ?case by (simp add: run_def)
next
  case (Cons c cs)
  then have "active_inv (run cs (step c p))" by (simp add: active_inv_step)
  then show ?case by (simp add: run_def)
qed

lemma active_inv_init: "active_inv init_process"
  by (simp add: active_inv_def init_process_def)

subsection \<open>Dragging\<close>

lemma drag_mousemove:
  assumes "listening p = Some (Dragging self dragStart newTrans)" and "self < length (wins p)"
  shows "mousemove_listener ev p =
           p\<lparr> wins := (wins p)[self := (wins p ! self)\<lparr> styles := (styles (wins p ! self))
                    (''transform'' \<mapsto> translate (pageX ev - dragStart ! 0) (pageY ev - dragStart ! 1)) \<rparr>],
              listening := Some (Dragging self dragStart
                                   [pageX ev - dragStart ! 0, pageY ev - dragStart ! 1]) \<rparr>"
  using assms by (simp add: mousemove_listener_def Let_def)

lemma drag_mousemoves:
  assumes "listening p = Some (Dragging self dragStart newTrans)" and "self < length (wins p)"
  shows "(\<exists>nt. listening (run (map Mousemove evs) p) = Some (Dragging self dragStart nt)) \<and>
         length (wins (run (map Mousemove evs) p)) = length (wins p) \<and>
         zIndex (run (map Mousemove evs) p) = zIndex p \<and>
         (\<forall>s. s \<noteq> ''transform'' \<longrightarrow>
            styles (wins (run (map Mousemove evs) p) ! self) s = styles (wins p ! self) s) \<and>
         (evs \<noteq> [] \<longrightarrow> styles (wins (run (map Mousemove evs) p) ! self) ''transform'' =
            Some (translate (pageX (last evs) - dragStart ! 0) (pageY (last evs) - dragStart ! 1)))"
proof (induction evs rule: rev_induct)
  case Nil
  with assms show ?case by (simp add: run_def)
next
  case (snoc e evs)
  let ?q = "run (map Mousemove evs) p"
  from snoc obtain nt where l: "listening ?q = Some (Dragging self dragStart nt)" by blast
  from snoc assms(2) have n: "self < length (wins ?q)" by simp
  have r: "run (map Mousemove (evs @ [e])) p = mousemove_listener e ?q"
    by (simp add: run_def)
  show ?case
    unfolding r drag_mousemove [OF l n] using snoc n by simp
qed

lemma header_mousedown_listening:
  "self < length (wins p0) \<Longrightarrow> header_mousedown (wins p0 ! self) \<Longrightarrow>
   listening (step (Mousedown_header self down) p0) =
     Some (Dragging self [pageX down, pageY down] [0, 0])"
  by (simp add: header_mousedown_listener_def case_prod_unfold Let_def)

subsection \<open>Evaluating the examples\<close>

lemmas eval_defs =
  run_def add_window_def on_window_def on_window_z_def new_N2Window_def new_N2WindowDraggable_def
  new_N2WindowResizable_def setupDrag_def setupResizers_def all_resizers_def bringToFront_def
  init_process_def example_template_def

lemma dragging_example_facts:
  "listening dragging_example = Some (Dragging 0 [650, 110] [0, 0])"
  "length (wins dragging_example) = 1"
  by (simp_all add: dragging_example_def eval_defs header_mousedown_listener_def at_page_def Let_def)

lemma resizing_example_facts:
  "listening resizing_example =
     Some (Resizing 0 [Side_right] (getPos (parentPos square_window) (childPos square_window))
             [900, 150] [0, 0] None)"
  "length (wins resizing_example) = 1"
  "min_size (wins resizing_example ! 0) = Some \<lparr> min_width = 200, min_height = 200 \<rparr>"
  by (simp_all add: resizing_example_def eval_defs resizer_mousedown_listener_def at_page_def Let_def)

lemma measured_examples:
  "measured (parentPos square_window)" "measured (childPos square_window)"
  "measured (parentPos low_window)" "measured (childPos low_window)"
  by (simp_all add: measured_def square_window_def low_window_def example_container_def)

lemmas run_eval =
  eval_defs two_windows_def show_window_def hidden_set_def Let_def

lemma two_windows_facts:
  "list_all (\<lambda>c. \<not> sets_z_index c) two_windows"
  "length two_windows = 3"
  "length (wins (run two_windows init_process)) = 2"
  "zIndex (run two_windows init_process) = 13"
  "length (wins (run (take 2 two_windows) init_process)) = 2"
  "stackOrder (wins (run (take 2 two_windows) init_process) ! 1) = Some 12"
  by (simp_all add: run_eval stackOrder_def)

lemma placed_dragging_facts:
  "listening placed_dragging = Some (Dragging 0 [400, 110] [0, 0])"
  "length (wins placed_dragging) = 1"
  "styles (wins placed_dragging ! 0) ''top'' = Some [Num 100, Ch CHR ''p'', Ch CHR ''x'']"
  "styles (wins placed_dragging ! 0) ''left'' = Some [Num 350, Ch CHR ''p'', Ch CHR ''x'']"
  "styles (wins placed_dragging ! 0) ''width'' = Some [Num 300, Ch CHR ''p'', Ch CHR ''x'']"
  "styles (wins placed_dragging ! 0) ''height'' = Some [Num 300, Ch CHR ''p'', Ch CHR ''x'']"
  by (simp_all add: placed_dragging_def eval_defs header_mousedown_listener_def at_page_def
        Let_def show_window_def hidden_set_def set_opt_def style_set_def css_name_def
        px_def str_def)

section \<open>The claims\<close>

text \<open>
  C1, as the code has it. For every resizer, every captured baseline, every minimum size,
  every pointer delta \<open>[dx, dy]\<close> and every rounding, whatever \<^verbatim>\<open>newSize\<close> held
  before: each side that the resizer controls is the candidate offset capped at the
  limit start offset + start dimension - minimum dimension, both as computed. The
  dimension of such a side falls short of its minimum by no more than the errors of the
  four roundings involved plus what the baseline itself misses of
  width = parentWidth - left - right (or the same for the height). A dimension that the
  resizer does not control differs from its value at mousedown by no more than the
  errors of its two roundings plus what the baseline misses. With every rounding error
  at most \<open>u\<close>, the shortfall of a controlled dimension is at most \<open>4 * u\<close> plus
  what the baseline misses. In exact arithmetic, with
  the baseline measured at mousedown, nothing is missed: a controlled dimension is at
  least its minimum and the other one is applied as it was at mousedown.
\<close>

theorem resize_keeps_controlled_minimum:
  assumes "newSize = resize_newSize_fl rnd (dirs name) startSize m [dx, dy] newSize0"
  shows "(\<forall>d \<in> set (dirs name).
            side_get newSize d =
              min (rnd (side_get startSize d + rnd (([dx, dy] ! idx (dirVals d)) * mult (dirVals d))))
                  (rnd (rnd (side_get startSize d + dim_get startSize (dmin (dirVals d)))
                        - min_get m (dmin (dirVals d))))) \<and>
         (\<forall>d \<in> set (dirs name).
            min_get m (dmin (dirVals d))
              - (limit_err rnd startSize m d
                 + derive_err rnd startSize newSize (dmin (dirVals d))
                 + \<bar>defect startSize (dmin (dirVals d))\<bar>)
            \<le> dim_get newSize (dmin (dirVals d))) \<and>
         (\<forall>D. \<not> controls name D \<longrightarrow>
            \<bar>dim_get newSize D - dim_get startSize D\<bar>
            \<le> derive_err rnd startSize newSize D + \<bar>defect startSize D\<bar>) \<and>
         ((\<forall>x. rnd x = x) \<and> measured (parentPos lay) \<and> measured (childPos lay) \<and>
          startSize = getPos (parentPos lay) (childPos lay) \<longrightarrow>
            newSize = resize_newSize (dirs name) startSize m [dx, dy] newSize0 \<and>
            (\<forall>D. (controls name D \<longrightarrow> min_get m D \<le> dim_get newSize D) \<and>
                 (\<not> controls name D \<longrightarrow> dim_get newSize D = dim_get startSize D))) \<and>
         ((\<forall>x. err rnd x \<le> u) \<longrightarrow>
            (\<forall>d \<in> set (dirs name).
               min_get m (dmin (dirVals d)) - (4 * u + \<bar>defect startSize (dmin (dirVals d))\<bar>)
               \<le> dim_get newSize (dmin (dirVals d))))"
proof (intro conjI ballI allI impI)
  fix d assume d: "d \<in> set (dirs name)"
  show "side_get newSize d =
          min (rnd (side_get startSize d + rnd (([dx, dy] ! idx (dirVals d)) * mult (dirVals d))))
              (rnd (rnd (side_get startSize d + dim_get startSize (dmin (dirVals d)))
                    - min_get m (dmin (dirVals d))))"
    unfolding assms resize_newSize_fl_sides
    using d distinct_dirs by (rule resize_sides_fl_capped)
  show "min_get m (dmin (dirVals d))
          - (limit_err rnd startSize m d
             + derive_err rnd startSize newSize (dmin (dirVals d))
             + \<bar>defect startSize (dmin (dirVals d))\<bar>)
        \<le> dim_get newSize (dmin (dirVals d))"
    using d assms by (rule controlled_bound)
next
  fix D assume "\<not> controls name D"
  then show "\<bar>dim_get newSize D - dim_get startSize D\<bar>
        \<le> derive_err rnd startSize newSize D + \<bar>defect startSize D\<bar>"
    using assms by (rule uncontrolled_bound)
next
  assume e: "(\<forall>x. rnd x = x) \<and> measured (parentPos lay) \<and> measured (childPos lay) \<and>
          startSize = getPos (parentPos lay) (childPos lay)"
  then have r: "rnd = (\<lambda>x. x)" by auto
  show "newSize = resize_newSize (dirs name) startSize m [dx, dy] newSize0"
    unfolding assms r by (rule resize_newSize_fl_id)
next
  fix D
  assume e: "(\<forall>x. rnd x = x) \<and> measured (parentPos lay) \<and> measured (childPos lay) \<and>
          startSize = getPos (parentPos lay) (childPos lay)"
  then have r: "rnd = (\<lambda>x. x)" by auto
  from e have z: "defect startSize D = 0" by (simp add: defect_getPos)
  {
    assume "controls name D"
    then obtain d where d: "d \<in> set (dirs name)" "dmin (dirVals d) = D"
      by (auto simp: controls_cases)
    from controlled_bound [OF d(1) assms] d(2) z
    show "min_get m D \<le> dim_get newSize D"
      by (cases D) (simp_all add: r limit_err_def err_id)
  next
    assume "\<not> controls name D"
    from uncontrolled_bound [OF this assms] z
    show "dim_get newSize D = dim_get startSize D"
      by (cases D) (simp_all add: r err_id)
  }
next
  fix d
  assume "\<forall>x. err rnd x \<le> u" and "d \<in> set (dirs name)"
  then show "min_get m (dmin (dirVals d)) - (4 * u + \<bar>defect startSize (dmin (dirVals d))\<bar>)
        \<le> dim_get newSize (dmin (dirVals d))"
    using assms by (intro controlled_uniform) simp_all
qed

text \<open>
  C1 at the right resizer, with minimum 200 by 200 and the pointer 500 pixels to the
  left, when numbers are rounded to whole pixels and the baseline has half pixels: the
  width applied is 199, below the minimum by the rounding errors, which add up to 1; the
  height stays 300.
\<close>

theorem resize_keeps_controlled_minimum_witness:
  "Side_right \<in> set (dirs Rsz_right) \<and> \<not> controls Rsz_right Dim_height \<and>
   (\<forall>x. err round_int x \<le> 1 / 2) \<and>
   width (resize_newSize_fl round_int (dirs Rsz_right) half_pixel_start
            \<lparr> min_width = 200, min_height = 200 \<rparr> [- 500, 0] None) = 199 \<and>
   limit_err round_int half_pixel_start \<lparr> min_width = 200, min_height = 200 \<rparr> Side_right
     + derive_err round_int half_pixel_start
         (resize_newSize_fl round_int (dirs Rsz_right) half_pixel_start
            \<lparr> min_width = 200, min_height = 200 \<rparr> [- 500, 0] None) Dim_width
     + \<bar>defect half_pixel_start Dim_width\<bar> = 1 \<and>
   200 - (4 * (1 / 2) + \<bar>defect half_pixel_start Dim_width\<bar>)
     \<le> width (resize_newSize_fl round_int (dirs Rsz_right) half_pixel_start
            \<lparr> min_width = 200, min_height = 200 \<rparr> [- 500, 0] None) \<and>
   height (resize_newSize_fl round_int (dirs Rsz_right) half_pixel_start
            \<lparr> min_width = 200, min_height = 200 \<rparr> [- 500, 0] None) = 300"
proof -
  let ?m = "\<lparr> min_width = 200, min_height = 200 \<rparr>"
  let ?g = "resize_newSize_fl round_int (dirs Rsz_right) half_pixel_start ?m [- 500, 0] None"
  note t = resize_keeps_controlled_minimum [OF refl, where rnd = round_int and name = Rsz_right
      and startSize = half_pixel_start and m = ?m and dx = "- 500" and dy = 0
      and ?newSize0.0 = None and u = "1 / 2"]
  have a: "Side_right \<in> set (dirs Rsz_right)" and b: "\<not> controls Rsz_right Dim_height"
    by (simp_all add: controls_def)
  have h: "\<forall>x. err round_int x \<le> 1 / 2"
    using err_round_int by blast
  have r: "right ?g = 201"
    using t [THEN conjunct1, rule_format, OF a]
    by (simp add: half_pixel_start_def round_int_def)
  have s: "left ?g = 599.5" "top' ?g = 100" "bottom ?g = 400"
    by (simp_all add: resize_newSize_fl_def object_assign_def Let_def half_pixel_start_def)
  have w: "width ?g = 199" "height ?g = 300"
    using r s
    by (simp_all add: resize_newSize_fl_def object_assign_def Let_def half_pixel_start_def
          round_int_def)
  have e: "limit_err round_int half_pixel_start ?m Side_right
             + derive_err round_int half_pixel_start ?g Dim_width
             + \<bar>defect half_pixel_start Dim_width\<bar> = 1"
    by (simp add: limit_err_def err_def resize_newSize_fl_def object_assign_def Let_def
          half_pixel_start_def round_int_def)
  have c: "200 - (4 * (1 / 2) + \<bar>defect half_pixel_start Dim_width\<bar>) \<le> width ?g"
    using t [THEN conjunct2, THEN conjunct2, THEN conjunct2, THEN conjunct2, rule_format,
             OF h [rule_format] a]
    by simp
  from a b h w e c show ?thesis by simp
qed

text \<open>
  C1 as stated fails for a dimension that the resizer does not control: a resizable
  window with minimum 200 by 200 that is 100 pixels high when the right resizer is
  pressed has the height 100 applied on the next mousemove.
\<close>

theorem resize_uncontrolled_height_below_minimum:
  "written (wins (run [New_N2WindowResizable None (str ''1'') example_template 200 200,
                       Mousedown_resizer 0 Rsz_right (at_page 900 150) low_window,
                       Mousemove (at_page 910 150)] init_process) ! 0) ''height'' = Some 100
   \<and> map_option min_height (min_size (wins (run [New_N2WindowResizable None (str ''1'') example_template 200 200,
                       Mousedown_resizer 0 Rsz_right (at_page 900 150) low_window,
                       Mousemove (at_page 910 150)] init_process) ! 0)) = Some 200"
  by (simp add: eval_defs resizer_mousedown_listener_def mousemove_listener_def
        resize_newSize_def object_assign_def getPos_def low_window_def example_container_def
        at_page_def written_setPos rect_top_def rect_bottom_def rect_left_def rect_right_def
        setPos_def Let_def written_def px_value_px)

text \<open>
  C2. Both callers of \<^verbatim>\<open>_setPos\<close> that run write a consistent geometry: the
  mouseup listener of a drag, when the browser measured both rectangles, with respect to
  the measured container; the mousemove listener of a resize, with respect to the
  container size captured at mousedown. The width written is the container width minus
  left and right, the height written the container height minus top and bottom.
\<close>

theorem applied_geometry_consistent:
  "(listening p = Some (Dragging self dragStart newTrans) \<and> self < length (wins p) \<and>
    measured (parentPos lay) \<and> measured (childPos lay) \<longrightarrow>
      geometry_consistent (rect_width (parentPos lay)) (rect_height (parentPos lay))
        (wins (mouseup_listener lay p) ! self)) \<and>
   (listening q = Some (Resizing self' ds startSize dragStart' newPos newSize) \<and>
    self' < length (wins q) \<and> min_size (wins q ! self') = Some m \<longrightarrow>
      geometry_consistent (parentWidth startSize) (parentHeight startSize)
        (wins (mousemove_listener ev q) ! self'))"
proof (intro conjI impI)
  assume a: "listening p = Some (Dragging self dragStart newTrans) \<and> self < length (wins p) \<and>
    measured (parentPos lay) \<and> measured (childPos lay)"
  let ?g = "getPos (parentPos lay) (childPos lay)"
  have "wins (mouseup_listener lay p) ! self =
          (setPos ?g (wins p ! self))\<lparr>
             styles := (styles (setPos ?g (wins p ! self)))
                         (''cursor'' \<mapsto> str ''auto'', ''transform'' := None),
             header_styles := (header_styles (setPos ?g (wins p ! self)))
                         (''cursor'' \<mapsto> str ''grab'') \<rparr>"
    using a by (simp add: mouseup_listener_def Let_def)
  moreover have "width ?g = rect_width (parentPos lay) - left ?g - right ?g"
    using a getPos_width [of "parentPos lay" "childPos lay"] by (simp add: getPos_def)
  moreover have "height ?g = rect_height (parentPos lay) - top' ?g - bottom ?g"
    using a getPos_height [of "parentPos lay" "childPos lay"] by (simp add: getPos_def)
  ultimately show "geometry_consistent (rect_width (parentPos lay)) (rect_height (parentPos lay))
        (wins (mouseup_listener lay p) ! self)"
    by (simp add: geometry_consistent_def written_def styles_setPos px_value_px)
next
  assume b: "listening q = Some (Resizing self' ds startSize dragStart' newPos newSize) \<and>
    self' < length (wins q) \<and> min_size (wins q ! self') = Some m"
  then have "wins (mousemove_listener ev q) ! self' =
      setPos (resize_newSize ds startSize m
                [pageX ev - dragStart' ! 0, pageY ev - dragStart' ! 1] newSize) (wins q ! self')"
    by (simp add: mousemove_listener_def Let_def)
  then show "geometry_consistent (parentWidth startSize) (parentHeight startSize)
        (wins (mousemove_listener ev q) ! self')"
    using resize_newSize_derived [of ds startSize m _ newSize]
    by (simp add: geometry_consistent_setPos)
qed

text \<open>C2 at the end of a drag and at a mousemove of a resize.\<close>

theorem applied_geometry_consistent_witness:
  "listening dragging_example = Some (Dragging 0 [650, 110] [0, 0]) \<and>
   0 < length (wins dragging_example) \<and>
   measured (parentPos square_window) \<and> measured (childPos square_window) \<and>
   geometry_consistent 1000 800 (wins (mouseup_listener square_window dragging_example) ! 0) \<and>
   listening resizing_example =
     Some (Resizing 0 [Side_right] (getPos (parentPos square_window) (childPos square_window))
             [900, 150] [0, 0] None) \<and>
   0 < length (wins resizing_example) \<and>
   min_size (wins resizing_example ! 0) = Some \<lparr> min_width = 200, min_height = 200 \<rparr> \<and>
   geometry_consistent 1000 800 (wins (mousemove_listener (at_page 400 150) resizing_example) ! 0)"
  using applied_geometry_consistent [of dragging_example 0 "[650, 110]" "[0, 0]" square_window
               resizing_example 0 "[Side_right]"
               "getPos (parentPos square_window) (childPos square_window)"
               "[900, 150]" "[0, 0]" None "\<lparr> min_width = 200, min_height = 200 \<rparr>"
               "at_page 400 150"]
  by (simp add: dragging_example_facts resizing_example_facts measured_examples)
     (simp add: square_window_def example_container_def getPos_def)



text \<open>
  C4 fails on the code. The group of the pattern contains the prefix
  \<^verbatim>\<open>window-theme-\<close>, so \<^verbatim>\<open>curTheme\<close> is the whole class name and the class
  removed is \<^verbatim>\<open>window-theme-window-theme-light\<close>, which is not there: after
  \<^verbatim>\<open>theme('dark')\<close> the contents have the old theme class and the new one.
\<close>

theorem theme_keeps_old_class:
  "contents_class example_window = str ''window-contents window-theme-light'' \<and>
   snd (theme None example_window) = Val (str ''window-theme-light'') \<and>
   theme (Some (str ''dark'')) example_window =
     (example_window\<lparr> contents_class :=
         str ''window-contents window-theme-light window-theme-dark'' \<rparr>, This)"
  by (simp add: theme_def example_window_def new_N2Window_def bringToFront_def
        example_template_def Let_def replace_theme_def theme_group_at_def str_def classed_def
        tokens_def)

text \<open>
  C5. While a drag is under way, any sequence of mousemove events leaves every style
  of the window but \<^verbatim>\<open>transform\<close> as it was, sets \<^verbatim>\<open>transform\<close> to the
  text \<^verbatim>\<open>translate(Xpx, Ypx)\<close> with the last pointer position minus the start
  for X and Y, and keeps the listeners on the page. The mouseup then writes the six
  styles from the geometry measured at that moment, removes \<^verbatim>\<open>transform\<close> and
  removes the listeners. The start is the pointer position of the mousedown on the
  header.
\<close>

theorem drag_moves_transform_only:
  assumes "listening p = Some (Dragging self dragStart newTrans)"
    and "self < length (wins p)"
    and "q = run (map Mousemove evs) p"
    and "r = step (Mouseup lay) q"
  shows "(\<forall>s. s \<noteq> ''transform'' \<longrightarrow> styles (wins q ! self) s = styles (wins p ! self) s) \<and>
         (evs \<noteq> [] \<longrightarrow> styles (wins q ! self) ''transform'' =
            Some (map Ch ''translate('' @ Num (pageX (last evs) - dragStart ! 0) # map Ch ''px, ''
                  @ Num (pageY (last evs) - dragStart ! 1) # map Ch ''px)'')) \<and>
         (\<exists>nt. listening q = Some (Dragging self dragStart nt)) \<and>
         listening r = None \<and>
         styles (wins r ! self) ''transform'' = None \<and>
         written (wins r ! self) ''top'' = Some (top' (getPos (parentPos lay) (childPos lay))) \<and>
         written (wins r ! self) ''right'' = Some (right (getPos (parentPos lay) (childPos lay))) \<and>
         written (wins r ! self) ''bottom'' = Some (bottom (getPos (parentPos lay) (childPos lay))) \<and>
         written (wins r ! self) ''left'' = Some (left (getPos (parentPos lay) (childPos lay))) \<and>
         written (wins r ! self) ''width'' = Some (width (getPos (parentPos lay) (childPos lay))) \<and>
         written (wins r ! self) ''height'' = Some (height (getPos (parentPos lay) (childPos lay))) \<and>
         (self < length (wins p0) \<and> header_mousedown (wins p0 ! self) \<longrightarrow>
            listening (step (Mousedown_header self down) p0) =
              Some (Dragging self [pageX down, pageY down] [0, 0]))"
proof -
  note m = drag_mousemoves [OF assms(1,2), of evs, folded assms(3)]
  from m obtain nt where l: "listening q = Some (Dragging self dragStart nt)" by blast
  from m assms(2) have n: "self < length (wins q)" by simp
  have t: "evs \<noteq> [] \<longrightarrow> styles (wins q ! self) ''transform'' =
            Some (map Ch ''translate('' @ Num (pageX (last evs) - dragStart ! 0) # map Ch ''px, ''
                  @ Num (pageY (last evs) - dragStart ! 1) # map Ch ''px)'')"
    using m by (simp add: translate_def px_def str_def)
  let ?w = "setPos (getPos (parentPos lay) (childPos lay)) (wins q ! self)"
  have "wins r ! self =
          ?w\<lparr> styles := (styles ?w)(''cursor'' \<mapsto> str ''auto'', ''transform'' := None),
               header_styles := (header_styles ?w)(''cursor'' \<mapsto> str ''grab'') \<rparr>"
    and "listening r = None"
    unfolding assms(4) using l n by (simp_all add: mouseup_listener_def Let_def)
  then have u: "listening r = None \<and>
         styles (wins r ! self) ''transform'' = None \<and>
         written (wins r ! self) ''top'' = Some (top' (getPos (parentPos lay) (childPos lay))) \<and>
         written (wins r ! self) ''right'' = Some (right (getPos (parentPos lay) (childPos lay))) \<and>
         written (wins r ! self) ''bottom'' = Some (bottom (getPos (parentPos lay) (childPos lay))) \<and>
         written (wins r ! self) ''left'' = Some (left (getPos (parentPos lay) (childPos lay))) \<and>
         written (wins r ! self) ''width'' = Some (width (getPos (parentPos lay) (childPos lay))) \<and>
         written (wins r ! self) ''height'' = Some (height (getPos (parentPos lay) (childPos lay)))"
    by (simp add: written_def styles_setPos px_value_px)
  have d: "self < length (wins p0) \<and> header_mousedown (wins p0 ! self) \<longrightarrow>
            listening (step (Mousedown_header self down) p0) =
              Some (Dragging self [pageX down, pageY down] [0, 0])"
    using header_mousedown_listening [of self p0 down] by blast
  from m t u d show ?thesis by blast
qed

text \<open>
  C5 for a window placed at left 350 and top 100 and pressed at (400, 110): after moves
  to (450, 200) and (410, 130) its left and top are still 350 and 100 and its transform
  is \<^verbatim>\<open>translate(10px, 20px)\<close>; the mouseup, with the window measured at left 360
  and top 120, writes these, and removes the transform and the listeners.
\<close>

theorem drag_moves_transform_only_witness:
  "listening placed_dragging = Some (Dragging 0 [400, 110] [0, 0]) \<and>
   0 < length (wins placed_dragging) \<and>
   styles (wins placed_dragging ! 0) ''left'' = Some [Num 350, Ch CHR ''p'', Ch CHR ''x''] \<and>
   styles (wins (run (map Mousemove [at_page 450 200, at_page 410 130]) placed_dragging) ! 0)
      ''left'' = Some [Num 350, Ch CHR ''p'', Ch CHR ''x''] \<and>
   styles (wins (run (map Mousemove [at_page 450 200, at_page 410 130]) placed_dragging) ! 0)
      ''top'' = Some [Num 100, Ch CHR ''p'', Ch CHR ''x''] \<and>
   styles (wins (run (map Mousemove [at_page 450 200, at_page 410 130]) placed_dragging) ! 0)
      ''transform'' = Some (map Ch ''translate('' @ Num 10 # map Ch ''px, '' @ Num 20 # map Ch ''px)'') \<and>
   listening (step (Mouseup moved_window)
                (run (map Mousemove [at_page 450 200, at_page 410 130]) placed_dragging)) = None \<and>
   styles (wins (step (Mouseup moved_window)
                (run (map Mousemove [at_page 450 200, at_page 410 130]) placed_dragging)) ! 0)
      ''transform'' = None \<and>
   written (wins (step (Mouseup moved_window)
                (run (map Mousemove [at_page 450 200, at_page 410 130]) placed_dragging)) ! 0)
      ''left'' = Some 360 \<and>
   written (wins (step (Mouseup moved_window)
                (run (map Mousemove [at_page 450 200, at_page 410 130]) placed_dragging)) ! 0)
      ''top'' = Some 120"
proof -
  let ?evs = "[at_page 450 200, at_page 410 130]"
  let ?q = "run (map Mousemove ?evs) placed_dragging"
  let ?r = "step (Mouseup moved_window) ?q"
  have a: "0 < length (wins placed_dragging)"
    by (simp add: placed_dragging_facts)
  note t = drag_moves_transform_only [OF placed_dragging_facts(1) a refl refl, of ?evs moved_window]
  from t have k: "styles (wins ?q ! 0) ''left'' = styles (wins placed_dragging ! 0) ''left''"
      "styles (wins ?q ! 0) ''top'' = styles (wins placed_dragging ! 0) ''top''"
    by simp_all
  from t have tr: "styles (wins ?q ! 0) ''transform'' =
      Some (map Ch ''translate('' @ Num 10 # map Ch ''px, '' @ Num 20 # map Ch ''px)'')"
    by (simp add: at_page_def)
  from t have l: "listening ?r = None" "styles (wins ?r ! 0) ''transform'' = None"
    by blast+
  have g: "left (getPos (parentPos moved_window) (childPos moved_window)) = 360"
    "top' (getPos (parentPos moved_window) (childPos moved_window)) = 120"
    by (simp_all add: getPos_def moved_window_def example_container_def rect_top_def
          rect_left_def)
  from t have w: "written (wins ?r ! 0) ''left'' = Some 360"
    "written (wins ?r ! 0) ''top'' = Some 120"
    unfolding g by blast+
  from a k tr l w placed_dragging_facts show ?thesis by simp
qed

text \<open>
  C6, as the code has it. In a history that leaves the \<^verbatim>\<open>z-index\<close> style to
  \<^verbatim>\<open>bringToFront\<close>, after \<^verbatim>\<open>show()\<close> the window is not hidden, its stack
  order is the counter, and no window of the process has a higher one.
\<close>

theorem show_unhides_and_raises:
  assumes "list_all (\<lambda>c. \<not> sets_z_index c) cs"
    and "p = run cs init_process"
    and "i < length (wins p)"
    and "p' = step (Show i) p"
  shows "hidden (wins p' ! i) = False \<and>
         stackOrder (wins p' ! i) = Some (zIndex p') \<and>
         (\<forall>j < length (wins p'). \<forall>v. stackOrder (wins p' ! j) = Some v \<longrightarrow> v \<le> zIndex p')"
proof -
  have inv: "stack_inv p"
    unfolding assms(2) using assms(1) stack_inv_init by (rule stack_inv_run)
  then have inv': "stack_inv p'"
    unfolding assms(4) by (intro stack_inv_step) simp_all
  from inv assms(3) obtain v where v: "stackOrder (wins p ! i) = Some v" "v \<le> zIndex p"
    by (auto simp: stack_inv_def list_all_length at_most_iff)
  let ?b = "bringToFront False (zIndex p) (wins p ! i)"
  have p': "p' = p\<lparr> zIndex := fst ?b, wins := (wins p)[i := (snd ?b)\<lparr> window_inactive := False \<rparr>] \<rparr>"
    unfolding assms(4) using assms(3)
    by (simp add: on_window_z_def show_window_def hidden_set_unfold)
  have "stackOrder (snd ?b) = Some (fst ?b)"
  proof (cases "v < zIndex p")
    case True
    with v(1) have "js_less (styles (wins p ! i) ''z-index'') (zIndex p)"
      by (auto simp: stackOrder_def js_less_to_number split: option.splits)
    then show ?thesis by (simp add: bringToFront_def stackOrder_def)
  next
    case False
    with v have e: "v = zIndex p" by simp
    with v(1) have "\<not> js_less (styles (wins p ! i) ''z-index'') (zIndex p)"
      by (auto simp: stackOrder_def js_less_to_number split: option.splits)
    with v(1) e show ?thesis by (simp add: bringToFront_def)
  qed
  then have "stackOrder ((snd ?b)\<lparr> window_inactive := False \<rparr>) = Some (fst ?b)"
    by (simp add: stackOrder_def)
  then have "hidden (wins p' ! i) = False \<and> stackOrder (wins p' ! i) = Some (zIndex p')"
    using assms(3) by (simp add: p' hidden_def)
  moreover have "\<forall>j < length (wins p'). \<forall>v. stackOrder (wins p' ! j) = Some v \<longrightarrow> v \<le> zIndex p'"
    using inv' by (auto dest: stack_inv_nth)
  ultimately show ?thesis by blast
qed

text \<open>
  C6 for the second of two windows.
\<close>

theorem show_unhides_and_raises_witness:
  "list_all (\<lambda>c. \<not> sets_z_index c) two_windows \<and>
   1 < length (wins (run two_windows init_process)) \<and>
   hidden (wins (step (Show 1) (run two_windows init_process)) ! 1) = False \<and>
   stackOrder (wins (step (Show 1) (run two_windows init_process)) ! 1) =
     Some (zIndex (step (Show 1) (run two_windows init_process))) \<and>
   zIndex (step (Show 1) (run two_windows init_process)) = 14 \<and>
   styles (wins (step (Show 1) (run two_windows init_process)) ! 1) ''z-index'' = Some [Num 14] \<and>
   window_inactive (wins (step (Show 1) (run two_windows init_process)) ! 1) = False"
proof -
  have a: "1 < length (wins (run two_windows init_process))"
    by (simp add: two_windows_facts)
  have z: "zIndex (step (Show 1) (run two_windows init_process)) = 14"
    "styles (wins (step (Show 1) (run two_windows init_process)) ! 1) ''z-index'' = Some [Num 14]"
    "window_inactive (wins (step (Show 1) (run two_windows init_process)) ! 1) = False"
    by (simp_all add: run_eval)
  from show_unhides_and_raises [OF two_windows_facts(1) refl a refl] a z two_windows_facts(1)
  show ?thesis by blast
qed

text \<open>
  C6 as stated fails once a \<^verbatim>\<open>z-index\<close> has been written through \<^verbatim>\<open>set\<close>.
  With two windows and \<^verbatim>\<open>set('z-index', 1000)\<close> on the first: \<^verbatim>\<open>show()\<close> on
  the second leaves it at 12, under the 1000 of the first; \<^verbatim>\<open>show()\<close> on the first
  leaves it at 1000 while the counter is 12.
\<close>

theorem show_under_written_z_index:
  "hidden (wins (run (raw_z_index @ [Show 1]) init_process) ! 1) = False \<and>
   stackOrder (wins (run (raw_z_index @ [Show 1]) init_process) ! 1) = Some 12 \<and>
   stackOrder (wins (run (raw_z_index @ [Show 1]) init_process) ! 0) = Some 1000 \<and>
   stackOrder (wins (run (raw_z_index @ [Show 0]) init_process) ! 0) = Some 1000 \<and>
   zIndex (run (raw_z_index @ [Show 0]) init_process) = 12 \<and>
   (12 :: real) < 1000"
  by (simp add: raw_z_index_def eval_defs show_window_def hidden_set_def hidden_def Let_def
        set_opt_def style_set_def css_name_def stackOrder_def)

text \<open>
  C7. While a resize is under way, any sequence of mousemove events that is not empty
  leaves the process as its last event alone would: the geometry applied is computed
  from the baseline captured at mousedown, the minimum size and the last pointer
  position, and does not depend on what \<^verbatim>\<open>newSize\<close> held before.
\<close>

theorem resize_follows_last_mousemove:
  assumes "listening p = Some (Resizing self ds startSize dragStart newPos newSize)"
    and "evs \<noteq> []"
  shows "run (map Mousemove evs) p = step (Mousemove (last evs)) p \<and>
         (self < length (wins p) \<and> min_size (wins p ! self) = Some m \<longrightarrow>
            wins (run (map Mousemove evs) p) ! self =
              setPos (resize_newSize ds startSize m
                        [pageX (last evs) - dragStart ! 0, pageY (last evs) - dragStart ! 1] None)
                     (wins p ! self))"
proof -
  from assms(2) obtain es e where evs: "evs = es @ [e]"
    by (cases evs rule: rev_cases) auto
  have r: "run (map Mousemove es @ [Mousemove e]) p = mousemove_listener e p"
    using run_mousemoves [OF assms(1), of es e] by simp
  show ?thesis
    using assms(1) unfolding evs
    by (simp add: r mousemove_listener_def Let_def resize_newSize_def object_assign_source)
qed

text \<open>C7 for three mousemove events after pressing the right resizer.\<close>

theorem resize_follows_last_mousemove_witness:
  "listening resizing_example =
     Some (Resizing 0 [Side_right] (getPos (parentPos square_window) (childPos square_window))
             [900, 150] [0, 0] None) \<and>
   [at_page 950 150, at_page 100 400, at_page 400 150] \<noteq> [] \<and>
   run (map Mousemove [at_page 950 150, at_page 100 400, at_page 400 150]) resizing_example =
     step (Mousemove (at_page 400 150)) resizing_example \<and>
   written (wins (run (map Mousemove [at_page 950 150, at_page 100 400, at_page 400 150])
                    resizing_example) ! 0) ''width'' = Some 200"
proof -
  note t = resize_follows_last_mousemove [OF resizing_example_facts(1),
      of "[at_page 950 150, at_page 100 400, at_page 400 150]"
         "\<lparr> min_width = 200, min_height = 200 \<rparr>"]
  have "wins (run (map Mousemove [at_page 950 150, at_page 100 400, at_page 400 150])
                    resizing_example) ! 0 =
        setPos (resize_newSize [Side_right]
                  (getPos (parentPos square_window) (childPos square_window))
                  \<lparr> min_width = 200, min_height = 200 \<rparr>
                  [pageX (at_page 400 150) - 900, pageY (at_page 400 150) - 150] None)
          (wins resizing_example ! 0)"
    using t [THEN conjunct2] by (simp add: resizing_example_facts)
  then have "written (wins (run (map Mousemove [at_page 950 150, at_page 100 400, at_page 400 150])
                    resizing_example) ! 0) ''width'' = Some 200"
    by (simp add: written_setPos resize_newSize_def object_assign_def Let_def getPos_def
          square_window_def example_container_def at_page_def rect_left_def rect_right_def)
  with t [THEN conjunct1] resizing_example_facts(1) show ?thesis by simp
qed

text \<open>
  C8, as the code has it: \<^verbatim>\<open>title(newTitle)\<close> with a string that is not empty
  sets the title and returns the window; \<^verbatim>\<open>title()\<close> and \<^verbatim>\<open>title('')\<close>
  return the current title and change nothing.
\<close>

theorem title_sets_nonempty:
  "(newTitle \<noteq> [] \<longrightarrow>
      title (Some newTitle) w = (w\<lparr> title_html := newTitle \<rparr>, This)) \<and>
   title None w = (w, Val (title_html w)) \<and>
   title (Some []) w = (w, Val (title_html w))"
  by (simp add: title_def)

text \<open>
  C8 for the title of the second window of \<^verbatim>\<open>wintest\<close>.
\<close>

theorem title_sets_nonempty_witness:
  "str ''Draggable Window'' \<noteq> [] \<and>
   title (Some (str ''Draggable Window'')) example_window =
     (example_window\<lparr> title_html := str ''Draggable Window'' \<rparr>, This) \<and>
   title None (example_window\<lparr> title_html := str ''Draggable Window'' \<rparr>) =
     (example_window\<lparr> title_html := str ''Draggable Window'' \<rparr>,
      Val (title_html (example_window\<lparr> title_html := str ''Draggable Window'' \<rparr>)))"
proof -
  have n: "str ''Draggable Window'' \<noteq> []"
    by (simp add: str_def)
  from title_sets_nonempty [of "str ''Draggable Window''" example_window]
       title_sets_nonempty [of "[]" "example_window\<lparr> title_html := str ''Draggable Window'' \<rparr>"] n
  show ?thesis
    by blast
qed

text \<open>
  C8 as stated fails for the empty string: \<^verbatim>\<open>title('')\<close> leaves the title
  as it was and returns it.
\<close>

theorem title_empty_string_ignored:
  "title_html (fst (title (Some (str '''')) example_window)) = str ''Title'' \<and>
   snd (title (Some (str '''')) example_window) = Val (str ''Title'') \<and>
   str ''Title'' \<noteq> str ''''"
  by (simp add: title_def str_def example_window_def new_N2Window_def bringToFront_def
        example_template_def)

text \<open>
  C9 fails on the code for a resizable window. \<^verbatim>\<open>close\<close> of a resizable window
  is the one of the draggable class: the listeners of the close button and of the header
  are removed and the element leaves the document, but the eight mousedown listeners
  that \<^verbatim>\<open>_setupResizers\<close> registered stay.
\<close>

theorem close_leaves_resizer_listeners:
  "wclass example_resizable = N2WindowResizable \<and>
   resizer_mousedown example_resizable = all_resizers \<and>
   closeButton_click (close example_resizable) = False \<and>
   header_mousedown (close example_resizable) = False \<and>
   in_document (close example_resizable) = False \<and>
   resizer_mousedown (close example_resizable) = all_resizers"
  by (simp add: example_resizable_def new_N2WindowResizable_def new_N2WindowDraggable_def
        new_N2Window_def bringToFront_def setupDrag_def setupResizers_def all_resizers_def
        close_def close_N2WindowDraggable_def close_N2Window_def)

text \<open>
  C10. Every window of every history has no field \<^verbatim>\<open>active\<close>, so
  \<^verbatim>\<open>move\<close> returns nothing and leaves the window, and the process, unchanged.
\<close>

theorem move_changes_nothing:
  assumes "p = run cs init_process" and "i < length (wins p)"
  shows "active (wins p ! i) = None \<and>
         move event offset vp lay (wins p ! i) = (wins p ! i, Undefined) \<and>
         step (Move i event offset vp lay) p = p"
proof -
  have "active_inv p"
    unfolding assms(1) using active_inv_init by (rule active_inv_run)
  with assms(2) have a: "active (wins p ! i) = None"
    by (simp add: active_inv_def list_all_length nth_list_update)
  then have m: "move event offset vp lay (wins p ! i) = (wins p ! i, Undefined)"
    by (simp add: move_def)
  then have "step (Move i event offset vp lay) p = p"
    by (simp add: on_window_def)
  with a m show ?thesis by simp
qed

text \<open>
  C10 for the second of two windows.
\<close>

theorem move_changes_nothing_witness:
  "1 < length (wins (run two_windows init_process)) \<and>
   active (wins (run two_windows init_process) ! 1) = None \<and>
   step (Move 1 (at_page 100 100) 15 \<lparr> innerWidth = 1200, innerHeight = 900 \<rparr> square_window)
        (run two_windows init_process) = run two_windows init_process"
proof -
  have a: "1 < length (wins (run two_windows init_process))"
    by (simp add: two_windows_facts)
  from move_changes_nothing [OF refl a] a show ?thesis by blast
qed

end
